theory Spec2Isabelle
  imports Complex_Main
begin

section \<open>The GitHub folder downloader (src/main.py)\<close>

text \<open>
  The traversal and retrieval core of \<^verbatim>\<open>src/main.py\<close>: \<^verbatim>\<open>list_directory_contents\<close>,
  \<^verbatim>\<open>download_file\<close> and \<^verbatim>\<open>process_directory\<close>.

  The three functions never read the local file system or any earlier effect back:
  every branch they take is decided by their arguments and by what the outside world
  answers. So each function is modelled as a pure function of its arguments and of an
  environment \<open>env\<close> (the answers of the outside world), returning its Python result
  together with the list of effects it performed, in order. What the effects do to a
  file system is given apart (\<open>apply_event\<close>, \<open>run_events\<close>).

  A call of the logger is recorded by its level only. Paths are joined as posixpath
  joins them. The credential \<^verbatim>\<open>auth\<close> and the timeout of 15 seconds are the same on every
  request and are part of what \<open>requests_get\<close> stands for.
\<close>

subsection \<open>Data\<close>

text \<open>
  \<open>bytes\<close> is a Python \<^verbatim>\<open>bytes\<close> value. Names, paths and URLs are Python \<^verbatim>\<open>str\<close> values
  written as \<open>string\<close>. The text of a decoded file is a \<^verbatim>\<open>str\<close> as well; it is kept
  apart as a list of code points, since one code point can take several bytes.
\<close>

type_synonym bytes = "char list"
type_synonym unicode = "nat list"

text \<open>
  The value \<^verbatim>\<open>response.json()\<close> returns. \<open>JObj kvs\<close> is the dict that maps a key \<open>k\<close> to
  \<open>map_of kvs k\<close>.
\<close>

datatype json =
    JNull
  | JBool bool
  | JNum int
  | JStr string
  | JArr "json list"
  | JObj "(string \<times> json) list"

text \<open>
  What the code reads of a \<^verbatim>\<open>requests.Response\<close>: \<^verbatim>\<open>status_code\<close>, \<^verbatim>\<open>content\<close> (the body
  bytes), \<^verbatim>\<open>text\<close> (the body decoded by the HTTP library under the charset the response
  declares or the library detects) and \<^verbatim>\<open>json()\<close> (\<open>None\<close> when it raises).
\<close>

record response =
  status_code :: int
  content :: bytes
  resp_text :: unicode
  json_body :: "json option"

text \<open>The repository coordinate every call passes along unchanged.\<close>

record coordinate =
  username :: string
  repo :: string
  commit_hash :: string

text \<open>
  The outside world. \<open>requests_get env url\<close> is the answer to
  \<^verbatim>\<open>requests.get(url, auth=auth, timeout=15)\<close>, \<open>None\<close> when the call raises (timeout,
  connection error). \<open>b64decode\<close> and \<open>utf8_decode\<close> are the library functions
  \<^verbatim>\<open>base64.b64decode\<close> and \<^verbatim>\<open>bytes.decode('utf-8')\<close>, \<open>None\<close> when they raise. \<open>py_str\<close>
  is \<^verbatim>\<open>str()\<close> on a JSON value that is not a string, which is what an f-string puts
  in its place. \<open>can_makedirs\<close> says whether \<^verbatim>\<open>os.makedirs(d, exist_ok=True)\<close> succeeds,
  \<open>can_open\<close> whether \<^verbatim>\<open>open(p, mode)\<close> succeeds, and \<open>can_write\<close> whether the write to the
  file opened at \<open>p\<close> and its closing succeed; when they do not, the call raises
  \<^verbatim>\<open>OSError\<close>. A write that raises is taken to have written nothing.
\<close>

record env =
  requests_get :: "string \<Rightarrow> response option"
  b64decode :: "json \<Rightarrow> bytes option"
  utf8_decode :: "bytes \<Rightarrow> unicode option"
  py_str :: "json \<Rightarrow> string"
  can_makedirs :: "string \<Rightarrow> bool"
  can_open :: "string \<Rightarrow> bool"
  can_write :: "string \<Rightarrow> bool"

text \<open>
  What one call of \<^verbatim>\<open>f.write\<close> hands to a file: a \<^verbatim>\<open>str\<close>, for a file opened in mode
  \<^verbatim>\<open>'w'\<close> with \<^verbatim>\<open>encoding='utf-8'\<close>, or bytes, for a file opened in mode \<^verbatim>\<open>'wb'\<close>.
\<close>

datatype file_data = TextData unicode | BinaryData bytes

datatype level = INFO | WARNING | ERROR

text \<open>
  The effects, in the order the program performs them: an HTTP GET; a successful
  \<^verbatim>\<open>os.makedirs(d, exist_ok=...)\<close>, with the flag it was given; a successful
  \<^verbatim>\<open>open(p, mode)\<close>, with its mode; a successful \<^verbatim>\<open>f.write\<close> to the file opened at \<open>p\<close>;
  \<^verbatim>\<open>time.sleep(random.uniform(lo, hi))\<close>; and a call of the logger.
\<close>

datatype event =
    Request string
  | Makedirs string bool
  | Opened string string
  | Wrote string file_data
  | Sleep real real
  | Log level

text \<open>The exceptions that leave \<^verbatim>\<open>process_directory\<close>, which has no handler of its own.\<close>

datatype error = KeyError | TypeError | AttributeError | OSError

subsection \<open>Python primitives\<close>

text \<open>\<^verbatim>\<open>os.path.join(a, b)\<close> of posixpath, for two strings.\<close>

definition os_path_join :: "string \<Rightarrow> string \<Rightarrow> string" where
  "os_path_join a b =
     (if b \<noteq> [] \<and> hd b = CHR ''/'' then b
      else if a = [] \<or> last a = CHR ''/'' then a @ b
      else a @ ''/'' @ b)"

text \<open>
  \<^verbatim>\<open>os.path.join(a, v)\<close> where \<open>v\<close> came out of a JSON document: a value that is not a
  string is refused with \<^verbatim>\<open>TypeError\<close>.
\<close>

fun py_path_join :: "string \<Rightarrow> json \<Rightarrow> error + string" where
  "py_path_join a (JStr b) = Inr (os_path_join a b)"
| "py_path_join a JNull = Inl TypeError"
| "py_path_join a (JBool b) = Inl TypeError"
| "py_path_join a (JNum n) = Inl TypeError"
| "py_path_join a (JArr xs) = Inl TypeError"
| "py_path_join a (JObj kvs) = Inl TypeError"

text \<open>
  What an f-string puts in the place of \<^verbatim>\<open>{v}\<close>: a string stands for itself, any other
  value for its \<^verbatim>\<open>str()\<close>. Nothing is raised.
\<close>

fun py_format :: "env \<Rightarrow> json \<Rightarrow> string" where
  "py_format env (JStr s) = s"
| "py_format env JNull = py_str env JNull"
| "py_format env (JBool b) = py_str env (JBool b)"
| "py_format env (JNum n) = py_str env (JNum n)"
| "py_format env (JArr xs) = py_str env (JArr xs)"
| "py_format env (JObj kvs) = py_str env (JObj kvs)"

text \<open>\<^verbatim>\<open>for item in contents\<close>: a list yields its elements, a dict its keys, a string its
  characters; anything else is not iterable.\<close>

fun py_iter :: "json \<Rightarrow> error + json list" where
  "py_iter (JArr xs) = Inr xs"
| "py_iter (JObj kvs) = Inr (map JStr (remdups (map fst kvs)))"
| "py_iter (JStr s) = Inr (map (\<lambda>ch. JStr [ch]) s)"
| "py_iter JNull = Inl TypeError"
| "py_iter (JBool b) = Inl TypeError"
| "py_iter (JNum n) = Inl TypeError"

text \<open>\<^verbatim>\<open>item[key]\<close> with a string key: only a dict accepts it.\<close>

fun py_getitem :: "json \<Rightarrow> string \<Rightarrow> error + json" where
  "py_getitem (JObj kvs) key = (case map_of kvs key of None \<Rightarrow> Inl KeyError | Some v \<Rightarrow> Inr v)"
| "py_getitem JNull key = Inl TypeError"
| "py_getitem (JBool b) key = Inl TypeError"
| "py_getitem (JNum n) key = Inl TypeError"
| "py_getitem (JStr s) key = Inl TypeError"
| "py_getitem (JArr xs) key = Inl TypeError"

text \<open>\<^verbatim>\<open>v.startswith(p)\<close>: only a string has the method.\<close>

fun py_startswith :: "json \<Rightarrow> string \<Rightarrow> error + bool" where
  "py_startswith (JStr s) p = Inr (take (length p) s = p)"
| "py_startswith JNull p = Inl AttributeError"
| "py_startswith (JBool b) p = Inl AttributeError"
| "py_startswith (JNum n) p = Inl AttributeError"
| "py_startswith (JArr xs) p = Inl AttributeError"
| "py_startswith (JObj kvs) p = Inl AttributeError"

subsection \<open>list_directory_contents (lines 50-68)\<close>

text \<open>
  \<^verbatim>\<open>list_directory_contents\<close> and \<^verbatim>\<open>download_file\<close> use their path argument in f-strings
  only (the URLs and the log lines). They are given that text, \<open>py_format env v\<close> for
  the value \<open>v\<close> the caller holds.
\<close>

definition api_url :: "coordinate \<Rightarrow> string \<Rightarrow> string" where
  "api_url c path =
     ''https://api.github.com/repos/'' @ username c @ ''/'' @ repo c @ ''/contents/'' @ path
       @ ''?ref='' @ commit_hash c"

definition raw_url :: "coordinate \<Rightarrow> string \<Rightarrow> string" where
  "raw_url c file_path =
     ''https://raw.githubusercontent.com/'' @ username c @ ''/'' @ repo c @ ''/''
       @ commit_hash c @ ''/'' @ file_path"

definition list_directory_contents ::
  "env \<Rightarrow> coordinate \<Rightarrow> string \<Rightarrow> (json \<times> bool) \<times> event list" where
  "list_directory_contents env c path =
     (case requests_get env (api_url c path) of
        None \<Rightarrow> ((JArr [], False), [Request (api_url c path), Log ERROR])
      | Some response \<Rightarrow>
          if status_code response = 200 then
            (case json_body response of
               None \<Rightarrow> ((JArr [], False), [Request (api_url c path), Log ERROR])
             | Some contents \<Rightarrow> ((contents, True), [Request (api_url c path)]))
          else ((JArr [], False), [Request (api_url c path), Log WARNING, Log WARNING]))"

subsection \<open>download_file (lines 71-151)\<close>

text \<open>
  Lines 83-117, the work on the answer of the API: the result is \<open>True\<close> when line 111
  returned \<open>True\<close>, \<open>False\<close> when control reaches line 119. Every exception raised
  here (by \<^verbatim>\<open>json()\<close>, \<^verbatim>\<open>b64decode\<close>, \<^verbatim>\<open>open\<close>, \<^verbatim>\<open>f.write\<close>) is caught at line 116. When
  \<^verbatim>\<open>open\<close> raises, nothing has happened to the file; once it has succeeded the file is
  there and empty, whatever the write does.
\<close>

definition api_attempt :: "env \<Rightarrow> response \<Rightarrow> string \<Rightarrow> string \<Rightarrow> bool \<times> event list" where
  "api_attempt env api_response file_name output_dir =
     (if status_code api_response = 200 then
        (case json_body api_response of
           None \<Rightarrow> (False, [Log ERROR])
         | Some content_data \<Rightarrow>
            (case content_data of
               JObj kvs \<Rightarrow>
                 if map_of kvs ''type'' = Some (JStr ''file'') then
                   (if map_of kvs ''content'' \<noteq> None
                       \<and> map_of kvs ''encoding'' = Some (JStr ''base64'') then
                      (case py_getitem content_data ''content'' of
                         Inl e \<Rightarrow> (False, [Log ERROR])
                       | Inr encoded \<Rightarrow>
                          (case b64decode env encoded of
                             None \<Rightarrow> (False, [Log ERROR])
                           | Some file_content \<Rightarrow>
                              (let is_binary = (utf8_decode env file_content = None);
                                   output_path = os_path_join output_dir file_name;
                                   mode = (if is_binary then ''wb'' else ''w'')
                               in if \<not> can_open env output_path then (False, [Log ERROR])
                                  else if is_binary then
                                    (if can_write env output_path
                                     then (True, [Opened output_path mode,
                                                  Wrote output_path (BinaryData file_content),
                                                  Log INFO])
                                     else (False, [Opened output_path mode, Log ERROR]))
                                  else
                                    (case utf8_decode env file_content of
                                       None \<Rightarrow> (False, [Opened output_path mode, Log ERROR])
                                     | Some decoded \<Rightarrow>
                                         if can_write env output_path
                                         then (True, [Opened output_path mode,
                                                      Wrote output_path (TextData decoded),
                                                      Log INFO])
                                         else (False, [Opened output_path mode, Log ERROR])))))
                    else (False, [Log WARNING]))
                 else (False, [Log WARNING])
             | _ \<Rightarrow> (False, [Log WARNING])))
      else (False, []))"

text \<open>
  Lines 120-151 after the request of line 121 has been sent: \<open>raw\<close> is its answer.
  An exception of the request, of \<^verbatim>\<open>open\<close> or of \<^verbatim>\<open>f.write\<close> is caught at line 149.
\<close>

definition raw_attempt :: "env \<Rightarrow> response option \<Rightarrow> string \<Rightarrow> string \<Rightarrow> bool \<times> event list" where
  "raw_attempt env raw file_name output_dir =
     (case raw of
        None \<Rightarrow> (False, [Log ERROR])
      | Some raw_response \<Rightarrow>
          if status_code raw_response = 200 then
            (let output_path = os_path_join output_dir file_name;
                 is_binary = (utf8_decode env (content raw_response) = None);
                 mode = (if is_binary then ''wb'' else ''w'')
             in if \<not> can_open env output_path then (False, [Log ERROR])
                else if \<not> can_write env output_path
                then (False, [Opened output_path mode, Log ERROR])
                else if is_binary
                then (True, [Opened output_path mode,
                             Wrote output_path (BinaryData (content raw_response)), Log INFO])
                else (True, [Opened output_path mode,
                             Wrote output_path (TextData (resp_text raw_response)), Log INFO]))
          else (False, [Log WARNING]))"

definition download_file ::
  "env \<Rightarrow> coordinate \<Rightarrow> string \<Rightarrow> string \<Rightarrow> string \<Rightarrow> bool \<times> event list" where
  "download_file env c file_path file_name output_dir =
     (case requests_get env (api_url c file_path) of
        None \<Rightarrow> (False, [Log INFO, Request (api_url c file_path), Log ERROR])
      | Some api_response \<Rightarrow>
          (case api_attempt env api_response file_name output_dir of
             (True, t) \<Rightarrow> (True, [Log INFO, Request (api_url c file_path)] @ t)
           | (False, t) \<Rightarrow>
               (case raw_attempt env (requests_get env (raw_url c file_path)) file_name output_dir of
                  (ok, t') \<Rightarrow>
                    (ok, [Log INFO, Request (api_url c file_path)] @ t
                           @ [Log INFO, Request (raw_url c file_path)] @ t'))))"

subsection \<open>process_directory (lines 154-186)\<close>

text \<open>
  The result of a walk: \<open>None\<close> when the recursion budget is used up, otherwise the
  exception raised or the count returned, with the effects performed until then.
\<close>

type_synonym walk_result = "((error + nat) \<times> event list) option"

text \<open>
  One pass through the body of the loop (lines 164-184): the amount added to
  \<^verbatim>\<open>files_downloaded\<close>. \<open>walk\<close> is the recursive call of line 183. \<open>path\<close> is the value
  the walker holds: the string of the caller at the top, below it whatever the remote
  put under the key \<^verbatim>\<open>path\<close>. In the branch of a file, \<open>name\<close> is a string, since
  \<^verbatim>\<open>startswith\<close> has answered.
\<close>

definition process_item ::
  "(json \<Rightarrow> walk_result) \<Rightarrow> env \<Rightarrow> coordinate \<Rightarrow> json \<Rightarrow> string \<Rightarrow> json \<Rightarrow> walk_result" where
  "process_item walk env c path output_base_dir item =
     (case py_getitem item ''name'' of
        Inl e \<Rightarrow> Some (Inl e, [])
      | Inr name \<Rightarrow>
         (case py_startswith name ''.'' of
            Inl e \<Rightarrow> Some (Inl e, [])
          | Inr hidden \<Rightarrow>
             if hidden then Some (Inr 0, [])
             else
              (case py_getitem item ''type'' of
                 Inl e \<Rightarrow> Some (Inl e, [])
               | Inr ty \<Rightarrow>
                  if ty = JStr ''file'' then
                    (case py_path_join output_base_dir path of
                       Inl e \<Rightarrow> Some (Inl e, [])
                     | Inr output_dir \<Rightarrow>
                        if \<not> can_makedirs env output_dir then Some (Inl OSError, [])
                        else
                         (case py_getitem item ''path'' of
                            Inl e \<Rightarrow> Some (Inl e, [Makedirs output_dir True])
                          | Inr file_path \<Rightarrow>
                             (case download_file env c (py_format env file_path)
                                      (py_format env name) output_dir of
                                (True, t) \<Rightarrow>
                                  Some (Inr 1,
                                        Makedirs output_dir True # t @ [Sleep (1/10) (1/2)])
                              | (False, t) \<Rightarrow>
                                  Some (Inr 0, Makedirs output_dir True # t))))
                  else if ty = JStr ''dir'' then
                    (case py_getitem item ''path'' of
                       Inl e \<Rightarrow> Some (Inl e, [])
                     | Inr sub_path \<Rightarrow> walk sub_path)
                  else Some (Inr 0, []))))"

text \<open>The loop of line 163 with its accumulator \<^verbatim>\<open>files_downloaded\<close>.\<close>

fun for_items :: "(json \<Rightarrow> walk_result) \<Rightarrow> json list \<Rightarrow> nat \<Rightarrow> walk_result" where
  "for_items body [] files_downloaded = Some (Inr files_downloaded, [])"
| "for_items body (item # items) files_downloaded =
     (case body item of
        None \<Rightarrow> None
      | Some (Inl e, t) \<Rightarrow> Some (Inl e, t)
      | Some (Inr sub_files, t) \<Rightarrow>
          (case for_items body items (files_downloaded + sub_files) of
             None \<Rightarrow> None
           | Some (r, t') \<Rightarrow> Some (r, t @ t')))"

text \<open>
  \<^verbatim>\<open>process_directory\<close>. The first argument bounds the depth of the recursion: the
  remote decides what a listing holds, and nothing in the code stops a remote whose
  directories never end.
\<close>

fun process_directory ::
  "nat \<Rightarrow> env \<Rightarrow> coordinate \<Rightarrow> json \<Rightarrow> string \<Rightarrow> walk_result" where
  "process_directory 0 env c path output_base_dir = None"
| "process_directory (Suc fuel) env c path output_base_dir =
     (case list_directory_contents env c (py_format env path) of
        ((contents, success), t) \<Rightarrow>
          if \<not> success then Some (Inr 0, t)
          else
           (case py_iter contents of
              Inl e \<Rightarrow> Some (Inl e, t)
            | Inr items \<Rightarrow>
               (case for_items
                       (process_item (\<lambda>p. process_directory fuel env c p output_base_dir)
                          env c path output_base_dir)
                       items 0 of
                  None \<Rightarrow> None
                | Some (r, t') \<Rightarrow> Some (r, t @ t'))))"

text \<open>The body of the loop of \<^verbatim>\<open>process_directory\<close> when \<open>fuel\<close> levels may still be entered.\<close>

definition loop_body ::
  "nat \<Rightarrow> env \<Rightarrow> coordinate \<Rightarrow> json \<Rightarrow> string \<Rightarrow> json \<Rightarrow> walk_result" where
  "loop_body fuel env c path output_base_dir =
     process_item (\<lambda>p. process_directory fuel env c p output_base_dir) env c path output_base_dir"

subsection \<open>What the effects do to a file system\<close>

text \<open>
  A file holds the pieces written to it since it was created or emptied. \<open>dirs\<close> are
  the names under which a directory exists.
\<close>

record filesystem =
  files :: "string \<rightharpoonup> file_data list"
  dirs :: "string set"

text \<open>
  \<^verbatim>\<open>os.makedirs(d)\<close> creates \<open>d\<close> and every parent of \<open>d\<close> that is missing: the parents are
  the parts of \<open>d\<close> that end before a slash.
\<close>

fun parents_from :: "string \<Rightarrow> string \<Rightarrow> string list" where
  "parents_from pre [] = []"
| "parents_from pre (ch # rest) =
     (if ch = CHR ''/'' \<and> pre \<noteq> [] \<and> last pre \<noteq> CHR ''/'' then [pre] else [])
       @ parents_from (pre @ [ch]) rest"

definition made_dirs :: "string \<Rightarrow> string list" where
  "made_dirs d = parents_from [] d @ [d]"

text \<open>
  One effect on a file system, as the operating system performs it; \<open>None\<close> when the
  operating system raises instead. \<^verbatim>\<open>os.makedirs\<close> on a directory that exists raises
  unless \<^verbatim>\<open>exist_ok\<close> is set. \<^verbatim>\<open>open\<close> empties the file in the modes \<^verbatim>\<open>'w'\<close> and \<^verbatim>\<open>'wb'\<close>,
  keeps what it holds in the modes \<^verbatim>\<open>'a'\<close> and \<^verbatim>\<open>'ab'\<close>, and creates it empty when it is
  missing; no other mode lets a write follow. \<^verbatim>\<open>f.write\<close> adds a piece at the end of the
  file that was opened.
\<close>

fun apply_event :: "event \<Rightarrow> filesystem \<Rightarrow> filesystem option" where
  "apply_event (Makedirs d exist_ok) fs =
     (if d \<in> dirs fs \<and> \<not> exist_ok then None
      else Some (fs\<lparr>dirs := dirs fs \<union> set (made_dirs d)\<rparr>))"
| "apply_event (Opened p mode) fs =
     (if mode = ''w'' \<or> mode = ''wb'' then Some (fs\<lparr>files := (files fs)(p \<mapsto> [])\<rparr>)
      else if mode = ''a'' \<or> mode = ''ab''
      then Some (fs\<lparr>files := (files fs)(p \<mapsto> (case files fs p of None \<Rightarrow> [] | Some old \<Rightarrow> old))\<rparr>)
      else None)"
| "apply_event (Wrote p d) fs =
     (case files fs p of
        None \<Rightarrow> None
      | Some old \<Rightarrow> Some (fs\<lparr>files := (files fs)(p \<mapsto> old @ [d])\<rparr>))"
| "apply_event (Request u) fs = Some fs"
| "apply_event (Sleep lo hi) fs = Some fs"
| "apply_event (Log l) fs = Some fs"

fun run_events :: "event list \<Rightarrow> filesystem \<Rightarrow> filesystem option" where
  "run_events [] fs = Some fs"
| "run_events (e # es) fs =
     (case apply_event e fs of None \<Rightarrow> None | Some fs' \<Rightarrow> run_events es fs')"

section \<open>Notions of the specification\<close>

text \<open>
  The classifier, in the words of the specification: decode the bytes as UTF-8;
  success is Text, failure is Binary. \<open>write_mode\<close> is the kind of a piece written,
  \<open>open_mode\<close> the mode of \<^verbatim>\<open>open\<close> that goes with a classification.
\<close>

datatype classification = Text | Binary

definition classify :: "env \<Rightarrow> bytes \<Rightarrow> classification" where
  "classify env bs = (case utf8_decode env bs of Some decoded \<Rightarrow> Text | None \<Rightarrow> Binary)"

fun write_mode :: "file_data \<Rightarrow> classification" where
  "write_mode (TextData s) = Text"
| "write_mode (BinaryData bs) = Binary"

fun open_mode :: "classification \<Rightarrow> string" where
  "open_mode Text = ''w''"
| "open_mode Binary = ''wb''"

text \<open>
  A payload of the primary channel that the specification accepts: a file-type entry
  with a content field and the encoding base64.
\<close>

fun decodable_file_entry :: "json \<Rightarrow> bool" where
  "decodable_file_entry (JObj kvs) =
     (map_of kvs ''type'' = Some (JStr ''file'') \<and> map_of kvs ''content'' \<noteq> None
      \<and> map_of kvs ''encoding'' = Some (JStr ''base64''))"
| "decodable_file_entry JNull = False"
| "decodable_file_entry (JBool b) = False"
| "decodable_file_entry (JNum n) = False"
| "decodable_file_entry (JStr s) = False"
| "decodable_file_entry (JArr xs) = False"

text \<open>
  Reading the effects of a run: the writes, the sleeps, the requests.
\<close>

fun is_wrote :: "event \<Rightarrow> bool" where
  "is_wrote (Wrote p d) = True"
| "is_wrote (Request u) = False"
| "is_wrote (Makedirs d exist_ok) = False"
| "is_wrote (Opened p mode) = False"
| "is_wrote (Sleep lo hi) = False"
| "is_wrote (Log l) = False"

fun is_sleep :: "event \<Rightarrow> bool" where
  "is_sleep (Sleep lo hi) = True"
| "is_sleep (Request u) = False"
| "is_sleep (Makedirs d exist_ok) = False"
| "is_sleep (Opened p mode) = False"
| "is_sleep (Wrote p d) = False"
| "is_sleep (Log l) = False"

fun is_request :: "event \<Rightarrow> bool" where
  "is_request (Request u) = True"
| "is_request (Sleep lo hi) = False"
| "is_request (Makedirs d exist_ok) = False"
| "is_request (Opened p mode) = False"
| "is_request (Wrote p d) = False"
| "is_request (Log l) = False"

text \<open>
  The pacing rule, read off a list of effects from left to right: a write is followed
  at once by the log line of the success and by a sleep drawn from 0.1 to 0.5, and a
  sleep stands nowhere else.
\<close>

fun pacing_ok :: "event list \<Rightarrow> bool" where
  "pacing_ok [] = True"
| "pacing_ok (Wrote p d # Log INFO # Sleep lo hi # es) = (lo = 1/10 \<and> hi = 1/2 \<and> pacing_ok es)"
| "pacing_ok (Wrote p d # es) = False"
| "pacing_ok (Sleep lo hi # es) = False"
| "pacing_ok (e # es) = pacing_ok es"

text \<open>
  The overwriting rule, read off a list of effects from left to right: every directory
  is made with \<^verbatim>\<open>exist_ok\<close>, every file is opened in a mode that empties it, and a write
  comes only right after the opening of the file it goes to. The first argument is
  the file that has just been opened, if the effect before was an opening.
\<close>

fun overwriting :: "string option \<Rightarrow> event list \<Rightarrow> bool" where
  "overwriting st [] = True"
| "overwriting st (Opened p mode # es) = ((mode = ''w'' \<or> mode = ''wb'') \<and> overwriting (Some p) es)"
| "overwriting st (Wrote q d # es) = (st = Some q \<and> overwriting None es)"
| "overwriting st (Makedirs d exist_ok # es) = (exist_ok \<and> overwriting None es)"
| "overwriting st (Request u # es) = overwriting None es"
| "overwriting st (Sleep lo hi # es) = overwriting None es"
| "overwriting st (Log l # es) = overwriting None es"

text \<open>
  What the effects leave in the file at \<open>p\<close>, when they are of the overwriting kind:
  \<open>cur\<close> is what the file holds before, \<open>None\<close> when it is missing.
\<close>

fun content_after :: "string \<Rightarrow> file_data list option \<Rightarrow> event list \<Rightarrow> file_data list option" where
  "content_after p cur [] = cur"
| "content_after p cur (Opened q mode # es) = content_after p (if q = p then Some [] else cur) es"
| "content_after p cur (Wrote q d # es) =
     content_after p (if q = p then map_option (\<lambda>old. old @ [d]) cur else cur) es"
| "content_after p cur (Request u # es) = content_after p cur es"
| "content_after p cur (Makedirs d exist_ok # es) = content_after p cur es"
| "content_after p cur (Sleep lo hi # es) = content_after p cur es"
| "content_after p cur (Log l # es) = content_after p cur es"

text \<open>
  The directories the effects make.
\<close>

fun made_by :: "event list \<Rightarrow> string set" where
  "made_by [] = {}"
| "made_by (Makedirs d exist_ok # es) = set (made_dirs d) \<union> made_by es"
| "made_by (Opened p mode # es) = made_by es"
| "made_by (Wrote p d # es) = made_by es"
| "made_by (Request u # es) = made_by es"
| "made_by (Sleep lo hi # es) = made_by es"
| "made_by (Log l # es) = made_by es"

text \<open>
  What one entry adds to the tally of its parent.
\<close>

definition item_tally :: "(json \<Rightarrow> walk_result) \<Rightarrow> json \<Rightarrow> nat" where
  "item_tally body item = (case body item of Some (Inr m, t) \<Rightarrow> m | _ \<Rightarrow> 0)"


text \<open>
  The paths opened and the paths written, in order.
\<close>

fun opened_paths :: "event list \<Rightarrow> string list" where
  "opened_paths [] = []"
| "opened_paths (Opened p mode # es) = p # opened_paths es"
| "opened_paths (Wrote p d # es) = opened_paths es"
| "opened_paths (Request u # es) = opened_paths es"
| "opened_paths (Makedirs d exist_ok # es) = opened_paths es"
| "opened_paths (Sleep lo hi # es) = opened_paths es"
| "opened_paths (Log l # es) = opened_paths es"

fun written_paths :: "event list \<Rightarrow> string list" where
  "written_paths [] = []"
| "written_paths (Wrote p d # es) = p # written_paths es"
| "written_paths (Opened p mode # es) = written_paths es"
| "written_paths (Request u # es) = written_paths es"
| "written_paths (Makedirs d exist_ok # es) = written_paths es"
| "written_paths (Sleep lo hi # es) = written_paths es"
| "written_paths (Log l # es) = written_paths es"

text \<open>
  The depth of the remote tree. \<open>subdirs env c path\<close> are the values the loop hands to
  the recursive call from the listing of \<open>path\<close>; \<open>tree_within n env c path\<close> says that
  every chain of such steps from \<open>path\<close> has fewer than \<open>n\<close> directories.
\<close>

definition listed_items :: "env \<Rightarrow> coordinate \<Rightarrow> json \<Rightarrow> json list" where
  "listed_items env c path =
     (case list_directory_contents env c (py_format env path) of
        ((contents, success), t) \<Rightarrow>
          if success then (case py_iter contents of Inl e \<Rightarrow> [] | Inr items \<Rightarrow> items) else [])"

definition item_subdir :: "json \<Rightarrow> json option" where
  "item_subdir item =
     (case py_getitem item ''name'' of
        Inl e \<Rightarrow> None
      | Inr name \<Rightarrow>
         (case py_startswith name ''.'' of
            Inl e \<Rightarrow> None
          | Inr hidden \<Rightarrow>
             if hidden then None
             else
              (case py_getitem item ''type'' of
                 Inl e \<Rightarrow> None
               | Inr ty \<Rightarrow>
                  if ty \<noteq> JStr ''file'' \<and> ty = JStr ''dir'' then
                    (case py_getitem item ''path'' of
                       Inl e \<Rightarrow> None
                     | Inr sub_path \<Rightarrow> Some sub_path)
                  else None)))"

definition subdirs :: "env \<Rightarrow> coordinate \<Rightarrow> json \<Rightarrow> json list" where
  "subdirs env c path = List.map_filter item_subdir (listed_items env c path)"

fun tree_within :: "nat \<Rightarrow> env \<Rightarrow> coordinate \<Rightarrow> json \<Rightarrow> bool" where
  "tree_within 0 env c path = False"
| "tree_within (Suc depth) env c path = list_all (tree_within depth env c) (subdirs env c path)"

section \<open>Concrete remotes\<close>

text \<open>
  Concrete remotes. The first is the scenario of the specification: \<^verbatim>\<open>src\<close> holds
  \<^verbatim>\<open>a.txt\<close> and \<^verbatim>\<open>sub\<close>, \<^verbatim>\<open>sub\<close> holds \<^verbatim>\<open>b.bin\<close> and \<^verbatim>\<open>.hidden\<close>; \<^verbatim>\<open>a.txt\<close> is the text \<^verbatim>\<open>hi\<close>, sent
  by the API in base64; for \<^verbatim>\<open>b.bin\<close> the API answers 404 and the raw endpoint sends the
  single byte FF. The library functions are given on the few values these remotes use.
\<close>

definition entry :: "string \<Rightarrow> string \<Rightarrow> string \<Rightarrow> json" where
  "entry n p ty = JObj [(''name'', JStr n), (''path'', JStr p), (''type'', JStr ty)]"

definition base64_file :: "string \<Rightarrow> json" where
  "base64_file encoded =
     JObj [(''type'', JStr ''file''), (''encoding'', JStr ''base64''), (''content'', JStr encoded)]"

definition ok_json :: "json \<Rightarrow> response" where
  "ok_json j = \<lparr>status_code = 200, content = [], resp_text = [], json_body = Some j\<rparr>"

definition status_only :: "int \<Rightarrow> response" where
  "status_only code = \<lparr>status_code = code, content = [], resp_text = [], json_body = None\<rparr>"

definition demo_c :: coordinate where
  "demo_c = \<lparr>username = ''acme'', repo = ''widgets'', commit_hash = ''abcdef1''\<rparr>"

definition demo_b64decode :: "json \<Rightarrow> bytes option" where
  "demo_b64decode j = (if j = JStr ''aGk='' then Some ''hi'' else None)"

definition demo_utf8_decode :: "bytes \<Rightarrow> unicode option" where
  "demo_utf8_decode bs =
     (if bs = ''hi'' then Some [104, 105]
      else if bs = [CHR 0xC3, CHR 0xA9] then Some [233]
      else None)"

definition demo_py_str :: "json \<Rightarrow> string" where
  "demo_py_str v = (if v = JNull then ''None'' else [])"

definition remote :: "(string \<times> response) list \<Rightarrow> env" where
  "remote answers = \<lparr>
     requests_get = map_of answers,
     b64decode = demo_b64decode,
     utf8_decode = demo_utf8_decode,
     py_str = demo_py_str,
     can_makedirs = (\<lambda>d. True),
     can_open = (\<lambda>p. True),
     can_write = (\<lambda>p. True)\<rparr>"

definition demo_env :: env where
  "demo_env = remote
       [(api_url demo_c ''src'',
           ok_json (JArr [entry ''a.txt'' ''src/a.txt'' ''file'', entry ''sub'' ''src/sub'' ''dir''])),
        (api_url demo_c ''src/sub'',
           ok_json (JArr [entry ''b.bin'' ''src/sub/b.bin'' ''file'',
                          entry ''.hidden'' ''src/sub/.hidden'' ''file''])),
        (api_url demo_c ''src/a.txt'', ok_json (base64_file ''aGk='')),
        (api_url demo_c ''src/sub/b.bin'', status_only 404),
        (raw_url demo_c ''src/sub/b.bin'',
           \<lparr>status_code = 200, content = [CHR 0xFF], resp_text = [65533], json_body = None\<rparr>)]"

definition demo_trace :: "event list" where
  "demo_trace =
     [Request ''https://api.github.com/repos/acme/widgets/contents/src?ref=abcdef1'',
      Makedirs ''out/src'' True,
      Log INFO,
      Request ''https://api.github.com/repos/acme/widgets/contents/src/a.txt?ref=abcdef1'',
      Opened ''out/src/a.txt'' ''w'',
      Wrote ''out/src/a.txt'' (TextData [104, 105]),
      Log INFO,
      Sleep (1/10) (1/2),
      Request ''https://api.github.com/repos/acme/widgets/contents/src/sub?ref=abcdef1'',
      Makedirs ''out/src/sub'' True,
      Log INFO,
      Request ''https://api.github.com/repos/acme/widgets/contents/src/sub/b.bin?ref=abcdef1'',
      Log INFO,
      Request ''https://raw.githubusercontent.com/acme/widgets/abcdef1/src/sub/b.bin'',
      Opened ''out/src/sub/b.bin'' ''wb'',
      Wrote ''out/src/sub/b.bin'' (BinaryData [CHR 0xFF]),
      Log INFO,
      Sleep (1/10) (1/2)]"

text \<open>
  The request to the API raises (no answer is recorded for its URL); the raw endpoint
  would answer.
\<close>

definition timeout_env :: env where
  "timeout_env = remote
       [(raw_url demo_c ''src/a.txt'',
           \<lparr>status_code = 200, content = ''hi'', resp_text = [104, 105], json_body = None\<rparr>)]"

text \<open>
  A file too large for the contents API, which answers with the encoding \<^verbatim>\<open>none\<close> and an
  empty content. The raw response carries the two bytes C3 A9, the UTF-8 form of
  U+00E9, under a charset other than UTF-8, so that its \<^verbatim>\<open>text\<close> is the two characters
  U+00C3 and U+00A9.
\<close>

definition charset_env :: env where
  "charset_env = remote
       [(api_url demo_c ''e.txt'',
           ok_json (JObj [(''type'', JStr ''file''), (''encoding'', JStr ''none''),
                          (''content'', JStr [])])),
        (raw_url demo_c ''e.txt'',
           \<lparr>status_code = 200, content = [CHR 0xC3, CHR 0xA9], resp_text = [195, 169],
            json_body = None\<rparr>)]"


text \<open>
  The listing of the subdirectory \<^verbatim>\<open>secret\<close> is refused with status 403; \<^verbatim>\<open>link\<close> is a
  symbolic link.
\<close>

definition forbidden_env :: env where
  "forbidden_env = remote
       [(api_url demo_c ''src'',
           ok_json (JArr [entry ''a.txt'' ''src/a.txt'' ''file'',
                          entry ''secret'' ''src/secret'' ''dir'',
                          entry ''link'' ''src/link'' ''symlink''])),
        (api_url demo_c ''src/a.txt'', ok_json (base64_file ''aGk='')),
        (api_url demo_c ''src/secret'', status_only 403)]"

text \<open>
  A file system that already holds a file where the walk will write.
\<close>

definition old_fs :: filesystem where
  "old_fs = \<lparr>files = [''out/src/a.txt'' \<mapsto> [BinaryData ''old'']], dirs = {''out''}\<rparr>"

text \<open>
  A listing whose entry holds \<^verbatim>\<open>null\<close> under the key \<^verbatim>\<open>path\<close>: the f-string of line 74 puts
  \<^verbatim>\<open>None\<close> in its place, and the API is asked for that.
\<close>

definition null_path_env :: env where
  "null_path_env = remote
       [(api_url demo_c ''src'',
           ok_json (JArr [JObj [(''name'', JStr ''n.txt''), (''path'', JNull),
                                (''type'', JStr ''file'')]])),
        (api_url demo_c ''None'', ok_json (base64_file ''aGk=''))]"

text \<open>
  A full disk: every file can be opened and no write succeeds; the raw endpoint does not
  answer. \<open>full_disk_trace\<close> lists the effects of the walk of \<^verbatim>\<open>src\<close> on it: the file is
  opened, and with that emptied, and nothing is written.
\<close>

definition full_disk_env :: env where
  "full_disk_env = (remote
       [(api_url demo_c ''src'', ok_json (JArr [entry ''a.txt'' ''src/a.txt'' ''file''])),
        (api_url demo_c ''src/a.txt'', ok_json (base64_file ''aGk=''))])
     \<lparr>can_write := (\<lambda>p. False)\<rparr>"

definition full_disk_trace :: "event list" where
  "full_disk_trace =
     [Request ''https://api.github.com/repos/acme/widgets/contents/src?ref=abcdef1'',
      Makedirs ''out/src'' True,
      Log INFO,
      Request ''https://api.github.com/repos/acme/widgets/contents/src/a.txt?ref=abcdef1'',
      Opened ''out/src/a.txt'' ''w'',
      Log ERROR,
      Log INFO,
      Request ''https://raw.githubusercontent.com/acme/widgets/abcdef1/src/a.txt'',
      Log ERROR]"

section \<open>Properties of the model\<close>

lemmas demo_defs =
  remote_def demo_c_def entry_def base64_file_def ok_json_def status_only_def demo_b64decode_def
  demo_utf8_decode_def demo_py_str_def api_url_def raw_url_def list_directory_contents_def
  process_item_def download_file_def api_attempt_def raw_attempt_def os_path_join_def Let_def

lemma demo_run:
  "process_directory 3 demo_env demo_c (JStr ''src'') ''out'' = Some (Inr 2, demo_trace)"
  by (simp add: demo_env_def demo_trace_def demo_defs numeral_3_eq_3)

lemma demo_within: "tree_within 3 demo_env demo_c (JStr ''src'')"
  by (simp add: demo_env_def demo_defs numeral_3_eq_3 subdirs_def listed_items_def
      item_subdir_def map_filter_def)

lemma forbidden_run:
  "process_directory 2 forbidden_env demo_c (JStr ''src'') ''out'' =
     Some (Inr 1,
       [Request ''https://api.github.com/repos/acme/widgets/contents/src?ref=abcdef1'',
        Makedirs ''out/src'' True,
        Log INFO,
        Request ''https://api.github.com/repos/acme/widgets/contents/src/a.txt?ref=abcdef1'',
        Opened ''out/src/a.txt'' ''w'',
        Wrote ''out/src/a.txt'' (TextData [104, 105]),
        Log INFO,
        Sleep (1/10) (1/2),
        Request ''https://api.github.com/repos/acme/widgets/contents/src/secret?ref=abcdef1'',
        Log WARNING,
        Log WARNING])"
  by (simp add: forbidden_env_def demo_defs numeral_2_eq_2)

lemma timeout_run:
  "download_file timeout_env demo_c ''src/a.txt'' ''a.txt'' ''out/src'' =
     (False,
      [Log INFO,
       Request ''https://api.github.com/repos/acme/widgets/contents/src/a.txt?ref=abcdef1'',
       Log ERROR])"
  by (simp add: timeout_env_def demo_defs)

lemma charset_run:
  "download_file charset_env demo_c ''e.txt'' ''e.txt'' ''out'' =
     (True,
      [Log INFO,
       Request ''https://api.github.com/repos/acme/widgets/contents/e.txt?ref=abcdef1'',
       Log WARNING,
       Log INFO,
       Request ''https://raw.githubusercontent.com/acme/widgets/abcdef1/e.txt'',
       Opened ''out/e.txt'' ''w'',
       Wrote ''out/e.txt'' (TextData [195, 169]),
       Log INFO])"
  by (simp add: charset_env_def demo_defs)


lemma null_path_run:
  "process_directory 1 null_path_env demo_c (JStr ''src'') ''out'' =
     Some (Inr 1,
       [Request ''https://api.github.com/repos/acme/widgets/contents/src?ref=abcdef1'',
        Makedirs ''out/src'' True,
        Log INFO,
        Request ''https://api.github.com/repos/acme/widgets/contents/None?ref=abcdef1'',
        Opened ''out/src/n.txt'' ''w'',
        Wrote ''out/src/n.txt'' (TextData [104, 105]),
        Log INFO,
        Sleep (1/10) (1/2)])"
  by (simp add: null_path_env_def demo_defs)

lemma full_disk_run:
  "process_directory 1 full_disk_env demo_c (JStr ''src'') ''out'' = Some (Inr 0, full_disk_trace)"
  by (simp add: full_disk_env_def full_disk_trace_def demo_defs)

lemma api_attempt_not_decodable:
  "status_code r = 200 \<Longrightarrow> json_body r = Some payload \<Longrightarrow> \<not> decodable_file_entry payload
   \<Longrightarrow> api_attempt env r fn od = (False, [Log WARNING])"
  by (cases payload) (auto simp: api_attempt_def)

lemma api_attempt_shape:
  "api_attempt env r fn od = (ok, t) \<Longrightarrow>
     (ok \<longrightarrow> (\<exists>m d. t = [Opened (os_path_join od fn) m, Wrote (os_path_join od fn) d, Log INFO]
                  \<and> (m = ''w'' \<or> m = ''wb'')))
   \<and> (\<not> ok \<longrightarrow> t = [] \<or> t = [Log ERROR] \<or> t = [Log WARNING]
              \<or> (\<exists>m. t = [Opened (os_path_join od fn) m, Log ERROR] \<and> (m = ''w'' \<or> m = ''wb'')))"
  by (auto simp: api_attempt_def Let_def split: if_splits option.splits json.splits sum.splits)

lemma raw_attempt_shape:
  "raw_attempt env raw fn od = (ok, t) \<Longrightarrow>
     (ok \<longrightarrow> (\<exists>m d. t = [Opened (os_path_join od fn) m, Wrote (os_path_join od fn) d, Log INFO]
                  \<and> (m = ''w'' \<or> m = ''wb'')))
   \<and> (\<not> ok \<longrightarrow> t = [Log ERROR] \<or> t = [Log WARNING]
              \<or> (\<exists>m. t = [Opened (os_path_join od fn) m, Log ERROR] \<and> (m = ''w'' \<or> m = ''wb'')))"
  by (auto simp: raw_attempt_def Let_def split: if_splits option.splits)

lemma download_file_shape:
  "download_file env c fp fn od = (ok, t) \<Longrightarrow>
     (ok \<longrightarrow> (\<exists>pre m d. t = pre @ [Opened (os_path_join od fn) m, Wrote (os_path_join od fn) d, Log INFO]
                  \<and> filter is_wrote pre = [] \<and> filter is_sleep pre = []))
   \<and> (\<not> ok \<longrightarrow> filter is_wrote t = [] \<and> filter is_sleep t = [])"
  apply (simp add: download_file_def split: option.splits prod.splits bool.splits)
  apply (auto dest!: api_attempt_shape raw_attempt_shape)
  done

lemma download_file_overwriting:
  "download_file env c fp fn od = (ok, t) \<Longrightarrow> overwriting None t"
  apply (simp add: download_file_def split: option.splits prod.splits bool.splits)
  apply (auto dest!: api_attempt_shape raw_attempt_shape)
  done

lemma download_file_paths:
  "download_file env c fp fn od = (ok, t) \<Longrightarrow>
     written_paths t = (if ok then [os_path_join od fn] else [])
     \<and> set (opened_paths t) \<subseteq> {os_path_join od fn}"
  apply (simp add: download_file_def split: option.splits prod.splits bool.splits)
  apply (auto dest!: api_attempt_shape raw_attempt_shape)
  done

lemma listing_quiet:
  "list_directory_contents env c path = (x, t0) \<Longrightarrow>
     filter is_wrote t0 = [] \<and> filter is_sleep t0 = [] \<and> filter is_request t0 = [Request (api_url c path)]"
  by (auto simp: list_directory_contents_def split: option.splits if_splits)

lemma listing_overwriting: "overwriting None (snd (list_directory_contents env c path))"
  by (auto simp: list_directory_contents_def split: option.splits if_splits)

lemma listing_pacing: "pacing_ok (snd (list_directory_contents env c path))"
  by (auto simp: list_directory_contents_def split: option.splits if_splits)

lemma for_items_append:
  "for_items body (xs @ ys) k =
     (case for_items body xs k of
        None \<Rightarrow> None
      | Some (Inl e, t) \<Rightarrow> Some (Inl e, t)
      | Some (Inr m, t) \<Rightarrow>
          (case for_items body ys m of None \<Rightarrow> None | Some (r, t') \<Rightarrow> Some (r, t @ t')))"
  by (induction xs arbitrary: k) (auto split: option.splits sum.splits prod.splits)

lemma for_items_skip:
  "body h = Some (Inr 0, []) \<Longrightarrow> for_items body (xs @ h # ys) k = for_items body (xs @ ys) k"
  by (simp add: for_items_append split: option.splits sum.splits prod.splits)

lemma process_item_count:
  assumes "process_item walk env c path out item = Some (Inr m, t)"
    and "\<And>p m' t'. walk p = Some (Inr m', t') \<Longrightarrow> m' = length (filter is_wrote t')"
  shows "m = length (filter is_wrote t)"
  using assms
  by (auto simp: process_item_def Let_def
      split: sum.splits if_splits prod.splits bool.splits dest!: download_file_shape)

lemma process_item_sleeps:
  assumes "process_item walk env c path out item = Some (Inr m, t)"
    and "\<And>p m' t'. walk p = Some (Inr m', t') \<Longrightarrow> length (filter is_sleep t') = m'"
  shows "length (filter is_sleep t) = m"
  using assms
  by (auto simp: process_item_def Let_def
      split: sum.splits if_splits prod.splits bool.splits dest!: download_file_shape)

lemma for_items_count:
  assumes "for_items (process_item walk env c path out) items k = Some (Inr n, t)"
    and "\<And>p m' t'. walk p = Some (Inr m', t') \<Longrightarrow> m' = length (filter is_wrote t')"
  shows "n = k + length (filter is_wrote t)"
  using assms(1)
proof (induction items arbitrary: k n t)
  case Nil
  then show ?case by simp
next
  case (Cons item items)
  from Cons.prems obtain m t1 t2 where
    b: "process_item walk env c path out item = Some (Inr m, t1)" and
    r: "for_items (process_item walk env c path out) items (k + m) = Some (Inr n, t2)" and
    t: "t = t1 @ t2"
    by (auto split: option.splits sum.splits prod.splits)
  have "m = length (filter is_wrote t1)"
    using b assms(2) by (rule process_item_count)
  moreover have "n = (k + m) + length (filter is_wrote t2)"
    using r by (rule Cons.IH)
  ultimately show ?case using t by simp
qed

lemma for_items_sleeps:
  assumes "for_items (process_item walk env c path out) items k = Some (Inr n, t)"
    and "\<And>p m' t'. walk p = Some (Inr m', t') \<Longrightarrow> length (filter is_sleep t') = m'"
  shows "k + length (filter is_sleep t) = n"
  using assms(1)
proof (induction items arbitrary: k n t)
  case Nil
  then show ?case by simp
next
  case (Cons item items)
  from Cons.prems obtain m t1 t2 where
    b: "process_item walk env c path out item = Some (Inr m, t1)" and
    r: "for_items (process_item walk env c path out) items (k + m) = Some (Inr n, t2)" and
    t: "t = t1 @ t2"
    by (auto split: option.splits sum.splits prod.splits)
  have "length (filter is_sleep t1) = m"
    using b assms(2) by (rule process_item_sleeps)
  moreover have "(k + m) + length (filter is_sleep t2) = n"
    using r by (rule Cons.IH)
  ultimately show ?case using t by simp
qed

lemma process_directory_unfold:
  assumes "list_directory_contents env c (py_format env path) = ((contents, True), t0)"
    and "py_iter contents = Inr items"
  shows "process_directory (Suc fuel) env c path out =
           (case for_items (loop_body fuel env c path out) items 0 of
              None \<Rightarrow> None
            | Some (r, t') \<Rightarrow> Some (r, t0 @ t'))"
  using assms by (simp add: loop_body_def)

lemma process_directory_count:
  "process_directory fuel env c path out = Some (Inr n, t) \<Longrightarrow> n = length (filter is_wrote t)"
proof (induction fuel arbitrary: path n t)
  case 0
  then show ?case by simp
next
  case (Suc fuel)
  obtain contents success t0 where
    l: "list_directory_contents env c (py_format env path) = ((contents, success), t0)"
    by (metis prod.exhaust)
  have t0: "filter is_wrote t0 = []"
    using listing_quiet [OF l] by simp
  show ?case
  proof (cases success)
    case False
    with Suc.prems l t0 show ?thesis by simp
  next
    case True
    with Suc.prems l obtain items t1 where
      "py_iter contents = Inr items" and
      f: "for_items (process_item (\<lambda>p. process_directory fuel env c p out) env c path out) items 0
            = Some (Inr n, t1)" and
      t: "t = t0 @ t1"
      by (auto split: sum.splits option.splits prod.splits)
    have "n = 0 + length (filter is_wrote t1)"
      using f Suc.IH by (rule for_items_count)
    then show ?thesis using t t0 by simp
  qed
qed

lemma process_directory_sleeps:
  "process_directory fuel env c path out = Some (Inr n, t) \<Longrightarrow> length (filter is_sleep t) = n"
proof (induction fuel arbitrary: path n t)
  case 0
  then show ?case by simp
next
  case (Suc fuel)
  obtain contents success t0 where
    l: "list_directory_contents env c (py_format env path) = ((contents, success), t0)"
    by (metis prod.exhaust)
  note q = listing_quiet [OF l]
  show ?case
  proof (cases success)
    case False
    with Suc.prems l q show ?thesis by simp
  next
    case True
    with Suc.prems l obtain items t1 where
      "py_iter contents = Inr items" and
      f: "for_items (process_item (\<lambda>p. process_directory fuel env c p out) env c path out) items 0
            = Some (Inr n, t1)" and
      t: "t = t0 @ t1"
      by (auto split: sum.splits option.splits prod.splits)
    have "0 + length (filter is_sleep t1) = n"
      using f Suc.IH by (rule for_items_sleeps)
    then show ?thesis using t q by simp
  qed
qed

lemma for_items_sum:
  "for_items body items k = Some (Inr n, t) \<Longrightarrow> n = k + sum_list (map (item_tally body) items)"
proof (induction items arbitrary: k n t)
  case Nil
  then show ?case by simp
next
  case (Cons item items)
  from Cons.prems obtain m t1 t2 where
    b: "body item = Some (Inr m, t1)" and
    r: "for_items body items (k + m) = Some (Inr n, t2)"
    by (auto split: option.splits sum.splits prod.splits)
  have "n = (k + m) + sum_list (map (item_tally body) items)"
    using r by (rule Cons.IH)
  moreover have "item_tally body item = m"
    using b by (simp add: item_tally_def)
  ultimately show ?case by simp
qed

lemma pacing_quiet: "filter is_wrote t = [] \<Longrightarrow> filter is_sleep t = [] \<Longrightarrow> pacing_ok t"
  by (induction t rule: pacing_ok.induct) (auto split: if_splits)

lemma pacing_append: "pacing_ok xs \<Longrightarrow> pacing_ok (xs @ ys) = pacing_ok ys"
  by (induction xs rule: pacing_ok.induct) auto

lemma pacing_quiet_append:
  "filter is_wrote xs = [] \<Longrightarrow> filter is_sleep xs = [] \<Longrightarrow> pacing_ok (xs @ ys) = pacing_ok ys"
  by (simp add: pacing_quiet pacing_append)

lemma overwriting_any:
  assumes "overwriting None t"
  shows "overwriting st t"
proof (cases t)
  case Nil
  then show ?thesis by simp
next
  case (Cons e es)
  with assms show ?thesis by (cases e) auto
qed

lemma overwriting_append:
  "overwriting st xs \<Longrightarrow> overwriting None ys \<Longrightarrow> overwriting st (xs @ ys)"
proof (induction xs arbitrary: st)
  case Nil
  then show ?case by (simp add: overwriting_any)
next
  case (Cons e es)
  then show ?case by (cases e) auto
qed

text \<open>
  A property of lists of effects that holds of the empty list, of the effects of a
  listing and of the effects of one file entry, and that joining two lists keeps, holds
  of the effects of every walk.
\<close>

lemma process_item_invariant:
  assumes "process_item walk env c path out item = Some (r, t)"
    and "\<And>p r' t'. walk p = Some (r', t') \<Longrightarrow> P t'"
    and "P []"
    and "\<And>d. P [Makedirs d True]"
    and "\<And>d fp fn t'. download_file env c fp fn d = (True, t')
           \<Longrightarrow> P (Makedirs d True # t' @ [Sleep (1/10) (1/2)])"
    and "\<And>d fp fn t'. download_file env c fp fn d = (False, t') \<Longrightarrow> P (Makedirs d True # t')"
  shows "P t"
  using assms
  by (auto simp: process_item_def Let_def
      split: sum.splits if_splits prod.splits bool.splits)

lemma for_items_invariant:
  assumes "for_items body items k = Some (r, t)"
    and "\<And>item r' t'. body item = Some (r', t') \<Longrightarrow> P t'"
    and "P []"
    and "\<And>xs ys. P xs \<Longrightarrow> P ys \<Longrightarrow> P (xs @ ys)"
  shows "P t"
  using assms(1)
proof (induction items arbitrary: k r t)
  case Nil
  then show ?case using assms(3) by simp
next
  case (Cons item items)
  show ?case
  proof (cases "body item")
    case None
    with Cons.prems show ?thesis by simp
  next
    case (Some a)
    obtain r1 t1 where a: "a = (r1, t1)" by (cases a)
    have p1: "P t1"
      using Some a assms(2) by blast
    show ?thesis
    proof (cases r1)
      case (Inl e)
      with Cons.prems Some a p1 show ?thesis by simp
    next
      case (Inr m)
      with Cons.prems Some a obtain t2 where
        r: "for_items body items (k + m) = Some (r, t2)" and
        t: "t = t1 @ t2"
        by (auto split: option.splits prod.splits)
      have "P t2" using r by (rule Cons.IH)
      with p1 t show ?thesis by (simp add: assms(4))
    qed
  qed
qed

lemma process_directory_invariant:
  assumes "process_directory fuel env c path out = Some (r, t)"
    and "P []"
    and "\<And>xs ys. P xs \<Longrightarrow> P ys \<Longrightarrow> P (xs @ ys)"
    and "\<And>p. P (snd (list_directory_contents env c p))"
    and "\<And>d. P [Makedirs d True]"
    and "\<And>d fp fn t'. download_file env c fp fn d = (True, t')
           \<Longrightarrow> P (Makedirs d True # t' @ [Sleep (1/10) (1/2)])"
    and "\<And>d fp fn t'. download_file env c fp fn d = (False, t') \<Longrightarrow> P (Makedirs d True # t')"
  shows "P t"
  using assms(1)
proof (induction fuel arbitrary: path r t)
  case 0
  then show ?case by simp
next
  case (Suc fuel)
  obtain contents success t0 where
    l: "list_directory_contents env c (py_format env path) = ((contents, success), t0)"
    by (metis prod.exhaust)
  have p0: "P t0"
    using assms(4) [of "py_format env path"] l by simp
  show ?case
  proof (cases "success \<and> (\<exists>items. py_iter contents = Inr items)")
    case False
    with Suc.prems l p0 show ?thesis by (auto split: sum.splits if_splits)
  next
    case True
    then obtain items where s: success and i: "py_iter contents = Inr items" by blast
    from Suc.prems l s i obtain t1 where
      f: "for_items (process_item (\<lambda>p. process_directory fuel env c p out) env c path out) items 0
            = Some (r, t1)" and
      t: "t = t0 @ t1"
      by (auto split: option.splits prod.splits)
    have "P t1"
    proof (rule for_items_invariant [OF f])
      fix item r' t'
      assume b: "process_item (\<lambda>p. process_directory fuel env c p out) env c path out item
                   = Some (r', t')"
      show "P t'"
        by (rule process_item_invariant [OF b]) (use Suc.IH assms(2,5,6,7) in blast)+
    qed (use assms(2,3) in blast)+
    with p0 t show ?thesis by (simp add: assms(3))
  qed
qed

lemma process_directory_pacing:
  assumes "process_directory fuel env c path out = Some (r, t)"
  shows "pacing_ok t"
proof (rule process_directory_invariant [OF assms])
  show "pacing_ok []" by simp
  show "\<And>xs ys. pacing_ok xs \<Longrightarrow> pacing_ok ys \<Longrightarrow> pacing_ok (xs @ ys)"
    by (simp add: pacing_append)
  show "\<And>p. pacing_ok (snd (list_directory_contents env c p))"
    by (rule listing_pacing)
  show "\<And>d. pacing_ok [Makedirs d True]" by simp
  show "\<And>d fp fn t'. download_file env c fp fn d = (True, t')
           \<Longrightarrow> pacing_ok (Makedirs d True # t' @ [Sleep (1/10) (1/2)])"
    by (auto dest!: download_file_shape simp: pacing_quiet_append)
  show "\<And>d fp fn t'. download_file env c fp fn d = (False, t') \<Longrightarrow> pacing_ok (Makedirs d True # t')"
    by (auto dest!: download_file_shape simp: pacing_quiet)
qed

lemma process_directory_overwriting:
  assumes "process_directory fuel env c path out = Some (r, t)"
  shows "overwriting None t"
proof (rule process_directory_invariant [OF assms])
  show "overwriting None []" by simp
  show "\<And>xs ys. overwriting None xs \<Longrightarrow> overwriting None ys \<Longrightarrow> overwriting None (xs @ ys)"
    by (rule overwriting_append)
  show "\<And>p. overwriting None (snd (list_directory_contents env c p))"
    by (rule listing_overwriting)
  show "\<And>d. overwriting None [Makedirs d True]" by simp
  show "\<And>d fp fn t'. download_file env c fp fn d = (True, t')
           \<Longrightarrow> overwriting None (Makedirs d True # t' @ [Sleep (1/10) (1/2)])"
    by (auto dest!: download_file_overwriting intro!: overwriting_append)
  show "\<And>d fp fn t'. download_file env c fp fn d = (False, t')
           \<Longrightarrow> overwriting None (Makedirs d True # t')"
    by (auto dest!: download_file_overwriting)
qed

lemma content_after_Some: "content_after p (Some cs) t \<noteq> None"
proof (induction t arbitrary: cs)
  case Nil
  then show ?case by simp
next
  case (Cons e es)
  then show ?case by (cases e) auto
qed

lemma run_events_overwriting:
  "overwriting st t \<Longrightarrow> (\<And>q. st = Some q \<Longrightarrow> files fs q \<noteq> None) \<Longrightarrow>
     \<exists>fs1. run_events t fs = Some fs1
         \<and> (\<forall>p. files fs1 p = content_after p (files fs p) t)
         \<and> dirs fs1 = dirs fs \<union> made_by t"
proof (induction t arbitrary: st fs)
  case Nil
  then show ?case by simp
next
  case (Cons e es)
  show ?case
  proof (cases e)
    case (Request u)
    with Cons.prems have o: "overwriting None es" by simp
    from Cons.IH [OF o, of fs] Request show ?thesis by simp
  next
    case (Makedirs d exist_ok)
    with Cons.prems have o: "overwriting None es" and k: exist_ok by simp_all
    let ?fs = "fs\<lparr>dirs := dirs fs \<union> set (made_dirs d)\<rparr>"
    from Cons.IH [OF o, of ?fs] obtain fs1 where
      "run_events es ?fs = Some fs1" "\<forall>p. files fs1 p = content_after p (files ?fs p) es"
      "dirs fs1 = dirs ?fs \<union> made_by es" by auto
    with Makedirs k show ?thesis by auto
  next
    case (Opened p mode)
    with Cons.prems have o: "overwriting (Some p) es" and m: "mode = ''w'' \<or> mode = ''wb''"
      by simp_all
    let ?fs = "fs\<lparr>files := (files fs)(p \<mapsto> [])\<rparr>"
    have "\<And>q. Some p = Some q \<Longrightarrow> files ?fs q \<noteq> None" by simp
    from Cons.IH [OF o this] obtain fs1 where
      r: "run_events es ?fs = Some fs1" and
      f: "\<forall>p'. files fs1 p' = content_after p' (files ?fs p') es" and
      d: "dirs fs1 = dirs ?fs \<union> made_by es" by blast
    have r': "run_events (e # es) fs = Some fs1"
      using Opened m r by auto
    have f': "\<forall>p'. files fs1 p' = content_after p' (files fs p') (e # es)"
      using Opened f by simp
    have d': "dirs fs1 = dirs fs \<union> made_by (e # es)"
      using Opened d by simp
    from r' f' d' show ?thesis by blast
  next
    case (Wrote q d)
    with Cons.prems have o: "overwriting None es" and s: "st = Some q" by simp_all
    from Cons.prems(2) [OF s] obtain old where old: "files fs q = Some old" by blast
    let ?fs = "fs\<lparr>files := (files fs)(q \<mapsto> old @ [d])\<rparr>"
    from Cons.IH [OF o, of ?fs] obtain fs1 where
      r: "run_events es ?fs = Some fs1" and
      f: "\<forall>p'. files fs1 p' = content_after p' (files ?fs p') es" and
      dd: "dirs fs1 = dirs ?fs \<union> made_by es" by auto
    have r': "run_events (e # es) fs = Some fs1"
      using Wrote old r by simp
    have f': "\<forall>p'. files fs1 p' = content_after p' (files fs p') (e # es)"
      using Wrote f old by simp
    have d': "dirs fs1 = dirs fs \<union> made_by (e # es)"
      using Wrote dd by simp
    from r' f' d' show ?thesis by blast
  next
    case (Sleep lo hi)
    with Cons.prems have o: "overwriting None es" by simp
    from Cons.IH [OF o, of fs] Sleep show ?thesis by simp
  next
    case (Log l)
    with Cons.prems have o: "overwriting None es" by simp
    from Cons.IH [OF o, of fs] Log show ?thesis by simp
  qed
qed

lemma content_after_overwriting:
  "overwriting st t \<Longrightarrow> st \<noteq> Some p \<Longrightarrow>
     content_after p cur t = (case content_after p None t of Some cs \<Rightarrow> Some cs | None \<Rightarrow> cur)"
proof (induction t arbitrary: st cur)
  case Nil
  then show ?case by simp
next
  case (Cons e es)
  show ?case
  proof (cases e)
    case (Request u)
    with Cons.prems have o: "overwriting None es" by simp
    from Cons.IH [OF o, of cur] Request show ?thesis by simp
  next
    case (Makedirs d exist_ok)
    with Cons.prems have o: "overwriting None es" by simp
    from Cons.IH [OF o, of cur] Makedirs show ?thesis by simp
  next
    case (Opened q mode)
    with Cons.prems have o: "overwriting (Some q) es" by simp
    show ?thesis
    proof (cases "q = p")
      case True
      obtain cs where "content_after p (Some []) es = Some cs"
        using content_after_Some [of p "[]" es] by auto
      with Opened True show ?thesis by simp
    next
      case False
      then have "Some q \<noteq> Some p" by simp
      from Cons.IH [OF o this, of cur] Opened False show ?thesis by simp
    qed
  next
    case (Wrote q d)
    with Cons.prems have o: "overwriting None es" and s: "st = Some q" by simp_all
    with Cons.prems(2) have n: "q \<noteq> p" by auto
    from Cons.IH [OF o, of cur] Wrote n show ?thesis by simp
  next
    case (Sleep lo hi)
    with Cons.prems have o: "overwriting None es" by simp
    from Cons.IH [OF o, of cur] Sleep show ?thesis by simp
  next
    case (Log l)
    with Cons.prems have o: "overwriting None es" by simp
    from Cons.IH [OF o, of cur] Log show ?thesis by simp
  qed
qed

lemma run_events_twice:
  assumes "overwriting None t" and "run_events t fs = Some fs1"
  shows "run_events t fs1 = Some fs1"
proof -
  from run_events_overwriting [OF assms(1), of fs] assms(2) have
    f1: "\<forall>p. files fs1 p = content_after p (files fs p) t" and
    d1: "dirs fs1 = dirs fs \<union> made_by t" by auto
  from run_events_overwriting [OF assms(1), of fs1] obtain fs2 where
    r2: "run_events t fs1 = Some fs2" and
    f2: "\<forall>p. files fs2 p = content_after p (files fs1 p) t" and
    d2: "dirs fs2 = dirs fs1 \<union> made_by t" by auto
  have "fs2 = fs1"
  proof (rule filesystem.equality)
    show "files fs2 = files fs1"
    proof (rule ext)
      fix p
      have a: "content_after p (files fs p) t
                 = (case content_after p None t of Some cs \<Rightarrow> Some cs | None \<Rightarrow> files fs p)"
        by (rule content_after_overwriting [OF assms(1)]) simp
      have b: "content_after p (files fs1 p) t
                 = (case content_after p None t of Some cs \<Rightarrow> Some cs | None \<Rightarrow> files fs1 p)"
        by (rule content_after_overwriting [OF assms(1)]) simp
      show "files fs2 p = files fs1 p"
        using f1 f2 a b by (simp split: option.splits)
    qed
    show "dirs fs2 = dirs fs1" using d1 d2 by auto
  qed simp
  with r2 show ?thesis by simp
qed






lemma process_item_None:
  "process_item walk env c path out item = None \<Longrightarrow>
     \<exists>sub_path. item_subdir item = Some sub_path \<and> walk sub_path = None"
  by (auto simp: process_item_def item_subdir_def Let_def
      split: sum.splits if_splits prod.splits bool.splits)

lemma for_items_None:
  "for_items body items k = None \<Longrightarrow> \<exists>item \<in> set items. body item = None"
  by (induction items arbitrary: k) (auto split: option.splits sum.splits prod.splits)

lemma process_directory_within:
  "tree_within fuel env c path \<Longrightarrow> process_directory fuel env c path out \<noteq> None"
proof (induction fuel arbitrary: path)
  case 0
  then show ?case by simp
next
  case (Suc fuel)
  obtain contents success t0 where
    l: "list_directory_contents env c (py_format env path) = ((contents, success), t0)"
    by (metis prod.exhaust)
  show ?case
  proof (cases "success \<and> (\<exists>items. py_iter contents = Inr items)")
    case False
    with l show ?thesis by (auto split: sum.splits)
  next
    case True
    then obtain items where s: success and i: "py_iter contents = Inr items" by blast
    have li: "listed_items env c path = items"
      using l s i by (simp add: listed_items_def)
    have "for_items (process_item (\<lambda>p. process_directory fuel env c p out) env c path out) items 0
            \<noteq> None"
    proof
      assume "for_items (process_item (\<lambda>p. process_directory fuel env c p out) env c path out) items 0
            = None"
      then obtain item where m: "item \<in> set items" and
        n: "process_item (\<lambda>p. process_directory fuel env c p out) env c path out item = None"
        using for_items_None by blast
      from n obtain sub_path where sp: "item_subdir item = Some sub_path" and
        w: "process_directory fuel env c sub_path out = None"
        using process_item_None by blast
      have "sub_path \<in> set (subdirs env c path)"
        using m sp li by (force simp: subdirs_def map_filter_def)
      then have "tree_within fuel env c sub_path"
        using Suc.prems by (simp add: list_all_iff)
      then have "process_directory fuel env c sub_path out \<noteq> None"
        by (rule Suc.IH)
      with w show False by contradiction
    qed
    then show ?thesis using l s i by (auto split: option.splits)
  qed
qed

lemma process_item_file:
  assumes "py_getitem item ''name'' = Inr (JStr nm)"
    and "py_startswith (JStr nm) ''.'' = Inr False"
    and "py_getitem item ''type'' = Inr (JStr ''file'')"
    and "py_getitem item ''path'' = Inr fp"
    and "can_makedirs env (os_path_join out path)"
  shows "process_item walk env c (JStr path) out item =
           (case download_file env c (py_format env fp) nm (os_path_join out path) of
              (ok, t) \<Rightarrow>
                Some (Inr (if ok then 1 else 0),
                      Makedirs (os_path_join out path) True # t
                        @ (if ok then [Sleep (1/10) (1/2)] else [])))"
  using assms by (simp add: process_item_def Let_def split: prod.splits bool.splits)

lemma process_item_other:
  assumes "py_getitem item ''name'' = Inr name"
    and "py_startswith name ''.'' = Inr False"
    and "py_getitem item ''type'' = Inr ty"
    and "ty \<noteq> JStr ''file''"
    and "ty \<noteq> JStr ''dir''"
  shows "process_item walk env c path out item = Some (Inr 0, [])"
  using assms by (simp add: process_item_def)

lemma process_item_hidden_entry:
  assumes "py_getitem item ''name'' = Inr name"
    and "py_startswith name ''.'' = Inr True"
  shows "process_item walk env c path out item = Some (Inr 0, [])"
  using assms by (simp add: process_item_def)

lemma process_item_dir:
  assumes "py_getitem item ''name'' = Inr name"
    and "py_startswith name ''.'' = Inr False"
    and "py_getitem item ''type'' = Inr (JStr ''dir'')"
    and "py_getitem item ''path'' = Inr sub_path"
  shows "process_item walk env c path out item = walk sub_path"
  using assms by (simp add: process_item_def)

lemma listing_failure:
  assumes "requests_get env (api_url c (py_format env path)) = None
           \<or> (\<exists>r. requests_get env (api_url c (py_format env path)) = Some r \<and> status_code r \<noteq> 200)"
  shows "process_directory (Suc fuel) env c path out
           = Some (Inr 0, snd (list_directory_contents env c (py_format env path)))
         \<and> filter is_request (snd (list_directory_contents env c (py_format env path)))
             = [Request (api_url c (py_format env path))]
         \<and> filter is_wrote (snd (list_directory_contents env c (py_format env path))) = []"
  using assms by (auto simp: list_directory_contents_def)

lemma download_file_primary_raises:
  "requests_get env (api_url c file_path) = None \<Longrightarrow>
     download_file env c file_path file_name output_dir
       = (False, [Log INFO, Request (api_url c file_path), Log ERROR])"
  by (simp add: download_file_def)

lemma content_after_append:
  "content_after p cur (xs @ ys) = content_after p (content_after p cur xs) ys"
proof (induction xs arbitrary: cur)
  case Nil
  then show ?case by simp
next
  case (Cons e es)
  then show ?case by (cases e) simp_all
qed

lemma download_file_content:
  assumes "download_file env c fp fn od = (True, t)"
  shows "\<exists>d. written_paths t = [os_path_join od fn]
            \<and> Wrote (os_path_join od fn) d \<in> set t
            \<and> content_after (os_path_join od fn) cur t = Some [d]"
proof -
  from download_file_shape [OF assms] obtain pre m d where
    t: "t = pre @ [Opened (os_path_join od fn) m, Wrote (os_path_join od fn) d, Log INFO]"
    by auto
  have "content_after (os_path_join od fn) cur t = Some [d]"
    unfolding t content_after_append by simp
  moreover have "Wrote (os_path_join od fn) d \<in> set t"
    unfolding t by simp
  moreover have "written_paths t = [os_path_join od fn]"
    using download_file_paths [OF assms] by simp
  ultimately show ?thesis by blast
qed

text \<open>
  What is written on each channel. The primary channel writes the UTF-8 decoding of
  the bytes, or the bytes themselves when they do not decode; the fallback channel
  writes the bytes themselves when they do not decode, and otherwise the \<^verbatim>\<open>text\<close> of the
  response.
\<close>

lemma api_attempt_content:
  assumes "status_code r = 200" "json_body r = Some (JObj kvs)" "decodable_file_entry (JObj kvs)"
    and "map_of kvs ''content'' = Some encoded" "b64decode env encoded = Some bs"
    and "can_open env (os_path_join od fn)" "can_write env (os_path_join od fn)"
  shows "api_attempt env r fn od =
           (True, [Opened (os_path_join od fn) (open_mode (classify env bs)),
                   Wrote (os_path_join od fn)
                     (case utf8_decode env bs of
                        None \<Rightarrow> BinaryData bs
                      | Some decoded \<Rightarrow> TextData decoded),
                   Log INFO])"
  using assms by (auto simp: api_attempt_def classify_def Let_def split: option.splits)

lemma raw_attempt_content:
  assumes "status_code r = 200" "can_open env (os_path_join od fn)"
    "can_write env (os_path_join od fn)"
  shows "raw_attempt env (Some r) fn od =
           (True, [Opened (os_path_join od fn) (open_mode (classify env (content r))),
                   Wrote (os_path_join od fn)
                     (case utf8_decode env (content r) of
                        None \<Rightarrow> BinaryData (content r)
                      | Some decoded \<Rightarrow> TextData (resp_text r)),
                   Log INFO])"
  using assms by (auto simp: raw_attempt_def classify_def Let_def split: option.splits)

section \<open>The claims of the specification\<close>

text \<open>
  Claim C1: the count \<^verbatim>\<open>process_directory\<close> returns is the number of file entries that
  were persisted; an entry whose name starts with a dot is skipped at every level, and
  each downloaded file counts for exactly one.

  Four facts, for every remote, every depth of the recursion and every value \<open>path\<close>
  the walker holds, a string or whatever else the remote put under the key \<^verbatim>\<open>path\<close> of a
  directory entry (\<open>walk\<close> is the recursive call, whatever it is). A remote whose tree
  below \<open>path\<close> is less than \<open>fuel\<close> levels deep lets the walk come to an end. The count
  returned is the number of writes performed. A hidden entry adds nothing and has no
  effect, whatever its type and wherever it stands in a listing: the loop runs as if
  the entry were not there. A file entry whose download succeeds adds one, and its
  download performs one write; the value \<open>fp\<close> under the key \<^verbatim>\<open>path\<close> of the entry is put
  into the URL as the f-string formats it, string or not.
\<close>

theorem walk_count_is_persisted_files:
  "(tree_within fuel env c path \<longrightarrow> process_directory fuel env c path out \<noteq> None)
   \<and> (process_directory fuel env c path out = Some (Inr n, t) \<longrightarrow>
         n = length (filter is_wrote t))
   \<and> (py_getitem h ''name'' = Inr name \<and> py_startswith name ''.'' = Inr True \<longrightarrow>
         process_item walk env c path out h = Some (Inr 0, [])
         \<and> for_items (process_item walk env c path out) (xs @ h # ys) k
             = for_items (process_item walk env c path out) (xs @ ys) k)
   \<and> (py_getitem item ''name'' = Inr (JStr nm) \<and> py_startswith (JStr nm) ''.'' = Inr False
        \<and> py_getitem item ''type'' = Inr (JStr ''file'') \<and> py_getitem item ''path'' = Inr fp
        \<and> can_makedirs env (os_path_join out dir)
        \<and> download_file env c (py_format env fp) nm (os_path_join out dir) = (True, t1) \<longrightarrow>
         process_item walk env c (JStr dir) out item
           = Some (Inr 1, Makedirs (os_path_join out dir) True # t1 @ [Sleep (1/10) (1/2)])
         \<and> length (filter is_wrote t1) = 1)"
proof (intro conjI impI)
  assume "tree_within fuel env c path"
  then show "process_directory fuel env c path out \<noteq> None"
    by (rule process_directory_within)
next
  assume "process_directory fuel env c path out = Some (Inr n, t)"
  then show "n = length (filter is_wrote t)"
    by (rule process_directory_count)
next
  assume a: "py_getitem h ''name'' = Inr name \<and> py_startswith name ''.'' = Inr True"
  then show b: "process_item walk env c path out h = Some (Inr 0, [])"
    by (simp add: process_item_hidden_entry)
  show "for_items (process_item walk env c path out) (xs @ h # ys) k
             = for_items (process_item walk env c path out) (xs @ ys) k"
    using b by (rule for_items_skip)
next
  assume a: "py_getitem item ''name'' = Inr (JStr nm) \<and> py_startswith (JStr nm) ''.'' = Inr False
        \<and> py_getitem item ''type'' = Inr (JStr ''file'') \<and> py_getitem item ''path'' = Inr fp
        \<and> can_makedirs env (os_path_join out dir)
        \<and> download_file env c (py_format env fp) nm (os_path_join out dir) = (True, t1)"
  then show "process_item walk env c (JStr dir) out item
           = Some (Inr 1, Makedirs (os_path_join out dir) True # t1 @ [Sleep (1/10) (1/2)])"
    by (simp add: process_item_file)
  from a have "download_file env c (py_format env fp) nm (os_path_join out dir) = (True, t1)"
    by simp
  then show "length (filter is_wrote t1) = 1"
    by (auto dest!: download_file_shape)
qed

theorem walk_count_is_persisted_files_witness:
  "tree_within 3 demo_env demo_c (JStr ''src'')
   \<and> process_directory 3 demo_env demo_c (JStr ''src'') ''out'' = Some (Inr 2, demo_trace)
   \<and> (2::nat) = length (filter is_wrote demo_trace)
   \<and> for_items (process_item (\<lambda>p. None) demo_env demo_c (JStr ''src/sub'') ''out'')
        ([entry ''b.bin'' ''src/sub/b.bin'' ''file''] @ entry ''.hidden'' ''src/sub/.hidden'' ''file'' # []) 0
      = for_items (process_item (\<lambda>p. None) demo_env demo_c (JStr ''src/sub'') ''out'')
        ([entry ''b.bin'' ''src/sub/b.bin'' ''file''] @ []) 0
   \<and> process_item (\<lambda>p. None) null_path_env demo_c (JStr ''src'') ''out''
        (JObj [(''name'', JStr ''n.txt''), (''path'', JNull), (''type'', JStr ''file'')])
      = Some (Inr 1,
          [Makedirs ''out/src'' True,
           Log INFO,
           Request ''https://api.github.com/repos/acme/widgets/contents/None?ref=abcdef1'',
           Opened ''out/src/n.txt'' ''w'',
           Wrote ''out/src/n.txt'' (TextData [104, 105]),
           Log INFO,
           Sleep (1/10) (1/2)])"
proof -
  let ?item = "JObj [(''name'', JStr ''n.txt''), (''path'', JNull), (''type'', JStr ''file'')]"
  let ?t1 = "[Log INFO,
        Request ''https://api.github.com/repos/acme/widgets/contents/None?ref=abcdef1'',
        Opened ''out/src/n.txt'' ''w'',
        Wrote ''out/src/n.txt'' (TextData [104, 105]),
        Log INFO]"
  have h1: "py_getitem (entry ''.hidden'' ''src/sub/.hidden'' ''file'') ''name'' = Inr (JStr ''.hidden'')"
    by (simp add: entry_def)
  have h2: "py_startswith (JStr ''.hidden'') ''.'' = Inr True"
    by simp
  have f1: "py_getitem ?item ''name'' = Inr (JStr ''n.txt'')"
    by simp
  have f2: "py_startswith (JStr ''n.txt'') ''.'' = Inr False"
    by simp
  have f3: "py_getitem ?item ''type'' = Inr (JStr ''file'')"
    by simp
  have f4: "py_getitem ?item ''path'' = Inr JNull"
    by simp
  have j: "os_path_join ''out'' ''src'' = ''out/src''"
    by (simp add: os_path_join_def)
  have f5: "can_makedirs null_path_env (os_path_join ''out'' ''src'')"
    by (simp add: null_path_env_def remote_def)
  have f6: "download_file null_path_env demo_c (py_format null_path_env JNull) ''n.txt''
              (os_path_join ''out'' ''src'') = (True, ?t1)"
    by (simp add: null_path_env_def demo_defs)
  have c2: "(2::nat) = length (filter is_wrote demo_trace)"
    using walk_count_is_persisted_files [where fuel = 3 and env = demo_env and c = demo_c
        and path = "JStr ''src''" and out = "''out''" and n = 2 and t = demo_trace] demo_run
    by blast
  have c3: "for_items (process_item (\<lambda>p. None) demo_env demo_c (JStr ''src/sub'') ''out'')
        ([entry ''b.bin'' ''src/sub/b.bin'' ''file''] @ entry ''.hidden'' ''src/sub/.hidden'' ''file'' # []) 0
      = for_items (process_item (\<lambda>p. None) demo_env demo_c (JStr ''src/sub'') ''out'')
        ([entry ''b.bin'' ''src/sub/b.bin'' ''file''] @ []) 0"
    using walk_count_is_persisted_files
      [where h = "entry ''.hidden'' ''src/sub/.hidden'' ''file''" and name = "JStr ''.hidden''"
         and walk = "\<lambda>p. None" and xs = "[entry ''b.bin'' ''src/sub/b.bin'' ''file'']"
         and ys = "[]" and k = 0 and env = demo_env and c = demo_c and path = "JStr ''src/sub''"
         and out = "''out''"] h1 h2
    by blast
  have c4: "process_item (\<lambda>p. None) null_path_env demo_c (JStr ''src'') ''out'' ?item
      = Some (Inr 1, Makedirs (os_path_join ''out'' ''src'') True # ?t1 @ [Sleep (1/10) (1/2)])"
    using walk_count_is_persisted_files
      [where item = ?item and nm = "''n.txt''" and fp = JNull and env = null_path_env
         and c = demo_c and out = "''out''" and dir = "''src''" and ?t1.0 = ?t1
         and walk = "\<lambda>p. None"] f1 f2 f3 f4 f5 f6
    by blast
  have c5: "process_item (\<lambda>p. None) null_path_env demo_c (JStr ''src'') ''out'' ?item
      = Some (Inr 1,
          [Makedirs ''out/src'' True,
           Log INFO,
           Request ''https://api.github.com/repos/acme/widgets/contents/None?ref=abcdef1'',
           Opened ''out/src/n.txt'' ''w'',
           Wrote ''out/src/n.txt'' (TextData [104, 105]),
           Log INFO,
           Sleep (1/10) (1/2)])"
    using c4 j by simp
  show ?thesis
    by (intro conjI) (rule demo_within demo_run c2 c3 c5)+
qed

text \<open>
  Claim C2: when the request to the primary channel raises a transport exception, the
  exception is caught, the fallback channel is still tried, and nothing propagates.

  The code does not do the second part. The request of line 81 stands outside the
  inner \<^verbatim>\<open>try\<close> of line 84, so its exception is caught by the handler of line 149,
  which logs and returns \<open>False\<close>: the request of line 121 is never sent, although the
  comment of line 119 announces it whenever the API method fails. Below, the primary
  request times out and the raw endpoint would have answered with status 200; the only
  request made is the primary one.
\<close>

theorem primary_timeout_skips_fallback:
  "download_file timeout_env demo_c ''src/a.txt'' ''a.txt'' ''out/src'' =
     (False,
      [Log INFO,
       Request ''https://api.github.com/repos/acme/widgets/contents/src/a.txt?ref=abcdef1'',
       Log ERROR])
   \<and> requests_get timeout_env (api_url demo_c ''src/a.txt'') = None
   \<and> requests_get timeout_env (raw_url demo_c ''src/a.txt'') =
       Some \<lparr>status_code = 200, content = ''hi'', resp_text = [104, 105], json_body = None\<rparr>"
proof (intro conjI)
  show "requests_get timeout_env (api_url demo_c ''src/a.txt'') = None"
    by (simp add: timeout_env_def remote_def demo_c_def api_url_def raw_url_def)
  show "requests_get timeout_env (raw_url demo_c ''src/a.txt'') =
       Some \<lparr>status_code = 200, content = ''hi'', resp_text = [104, 105], json_body = None\<rparr>"
    by (simp add: timeout_env_def remote_def demo_c_def api_url_def raw_url_def)
qed (rule timeout_run)

text \<open>
  Claim C3: a file whose bytes decode as UTF-8 is persisted as the UTF-8 decoding of the
  retrieved bytes, on the primary and on the fallback channel; other bytes are written
  unmodified.

  On the fallback channel line 140 writes \<^verbatim>\<open>raw_response.text\<close>, the HTTP library's own
  decoding of the body, and not \<^verbatim>\<open>raw_response.content.decode('utf-8')\<close> as the test of
  line 130 and the sibling line 108 do. Below, the body is C3 A9, which decodes as UTF-8
  to the single code point 233, and the library reports the two code points 195 and 169
  (the body read as Latin-1): the file receives the latter.
\<close>

theorem fallback_writes_library_text:
  "download_file charset_env demo_c ''e.txt'' ''e.txt'' ''out'' =
     (True,
      [Log INFO,
       Request ''https://api.github.com/repos/acme/widgets/contents/e.txt?ref=abcdef1'',
       Log WARNING,
       Log INFO,
       Request ''https://raw.githubusercontent.com/acme/widgets/abcdef1/e.txt'',
       Opened ''out/e.txt'' ''w'',
       Wrote ''out/e.txt'' (TextData [195, 169]),
       Log INFO])
   \<and> map_option content (requests_get charset_env (raw_url demo_c ''e.txt''))
       = Some [CHR 0xC3, CHR 0xA9]
   \<and> utf8_decode charset_env [CHR 0xC3, CHR 0xA9] = Some [233]"
proof (intro conjI)
  show "map_option content (requests_get charset_env (raw_url demo_c ''e.txt''))
       = Some [CHR 0xC3, CHR 0xA9]"
    by (simp add: charset_env_def remote_def demo_c_def api_url_def raw_url_def)
  show "utf8_decode charset_env [CHR 0xC3, CHR 0xA9] = Some [233]"
    by (simp add: charset_env_def remote_def demo_utf8_decode_def)
qed (rule charset_run)

text \<open>
  Claim C4: when the primary channel answers 200 with a payload that is not a
  file-type entry, or has no content field, or an encoding other than base64, nothing
  is raised and the raw endpoint is requested before the file is given up: the result
  of \<^verbatim>\<open>download_file\<close> is the result of the fallback, and its effects are the primary
  request, a warning, and then the raw request with what follows it.
\<close>

theorem fallback_after_structural_mismatch:
  assumes "requests_get env (api_url c file_path) = Some api_response"
    and "status_code api_response = 200"
    and "json_body api_response = Some payload"
    and "\<not> decodable_file_entry payload"
  shows "download_file env c file_path file_name output_dir =
           (fst (raw_attempt env (requests_get env (raw_url c file_path)) file_name output_dir),
            [Log INFO, Request (api_url c file_path), Log WARNING,
             Log INFO, Request (raw_url c file_path)]
              @ snd (raw_attempt env (requests_get env (raw_url c file_path)) file_name output_dir))"
  using assms api_attempt_not_decodable [of api_response payload env file_name output_dir]
  by (simp add: download_file_def split: prod.splits)

theorem fallback_after_structural_mismatch_witness:
  "requests_get demo_env (api_url demo_c ''src/sub'') =
     Some (ok_json (JArr [entry ''b.bin'' ''src/sub/b.bin'' ''file'',
                          entry ''.hidden'' ''src/sub/.hidden'' ''file'']))
   \<and> \<not> decodable_file_entry (JArr [entry ''b.bin'' ''src/sub/b.bin'' ''file'',
                                    entry ''.hidden'' ''src/sub/.hidden'' ''file''])
   \<and> download_file demo_env demo_c ''src/sub'' ''sub'' ''out/src'' =
       (False,
        [Log INFO,
         Request ''https://api.github.com/repos/acme/widgets/contents/src/sub?ref=abcdef1'',
         Log WARNING,
         Log INFO,
         Request ''https://raw.githubusercontent.com/acme/widgets/abcdef1/src/sub'',
         Log ERROR])"
proof -
  let ?payload = "JArr [entry ''b.bin'' ''src/sub/b.bin'' ''file'',
                        entry ''.hidden'' ''src/sub/.hidden'' ''file'']"
  have g: "requests_get demo_env (api_url demo_c ''src/sub'') = Some (ok_json ?payload)"
    by (simp add: demo_env_def remote_def demo_c_def api_url_def raw_url_def)
  have s: "status_code (ok_json ?payload) = 200"
    by (simp add: ok_json_def)
  have j: "json_body (ok_json ?payload) = Some ?payload"
    by (simp add: ok_json_def)
  have n: "\<not> decodable_file_entry ?payload"
    by simp
  have r: "raw_attempt demo_env (requests_get demo_env (raw_url demo_c ''src/sub'')) ''sub'' ''out/src''
             = (False, [Log ERROR])"
    by (simp add: demo_env_def remote_def demo_c_def api_url_def raw_url_def raw_attempt_def)
  show ?thesis
    using fallback_after_structural_mismatch [OF g s j n, of "''sub''" "''out/src''"] g n r
    by (simp add: demo_c_def api_url_def raw_url_def)
qed




text \<open>
  Claim C6: the classification is a function of the bytes alone: Text exactly when the
  UTF-8 decoding succeeds, Binary exactly when it fails, the same on both channels.

  \<open>classify\<close> is the classifier in the words of the specification. The code has no
  such function: it computes \<^verbatim>\<open>is_binary\<close> in place, at lines 94-98 for the bytes decoded
  from the API and at lines 128-132 for the body of the raw response. On either
  channel, for the same bytes \<open>bs\<close>, the file is opened in the mode that goes with
  \<open>classify env bs\<close>, and what is written to it, when the write goes through, is of
  the kind \<open>classify env bs\<close>.
\<close>

theorem classify_decides_write_mode:
  "(classify env bs = Text \<longleftrightarrow> utf8_decode env bs \<noteq> None)
   \<and> (classify env bs = Binary \<longleftrightarrow> utf8_decode env bs = None)
   \<and> (status_code r = 200 \<and> json_body r = Some (JObj kvs) \<and> decodable_file_entry (JObj kvs)
        \<and> map_of kvs ''content'' = Some encoded \<and> b64decode env encoded = Some bs
        \<and> can_open env (os_path_join od fn) \<longrightarrow>
         (if can_write env (os_path_join od fn)
          then \<exists>d. api_attempt env r fn od =
                      (True, [Opened (os_path_join od fn) (open_mode (classify env bs)),
                              Wrote (os_path_join od fn) d, Log INFO])
                  \<and> write_mode d = classify env bs
          else api_attempt env r fn od =
                 (False, [Opened (os_path_join od fn) (open_mode (classify env bs)), Log ERROR])))
   \<and> (status_code r' = 200 \<and> content r' = bs \<and> can_open env (os_path_join od fn) \<longrightarrow>
         (if can_write env (os_path_join od fn)
          then \<exists>d. raw_attempt env (Some r') fn od =
                      (True, [Opened (os_path_join od fn) (open_mode (classify env bs)),
                              Wrote (os_path_join od fn) d, Log INFO])
                  \<and> write_mode d = classify env bs
          else raw_attempt env (Some r') fn od =
                 (False, [Opened (os_path_join od fn) (open_mode (classify env bs)), Log ERROR])))"
  by (auto simp: classify_def api_attempt_def raw_attempt_def Let_def split: option.splits)

theorem classify_decides_write_mode_witness:
  "classify demo_env ''hi'' = Text
   \<and> classify demo_env [CHR 0xFF] = Binary
   \<and> api_attempt demo_env (ok_json (base64_file ''aGk='')) ''a.txt'' ''out/src''
       = (True, [Opened ''out/src/a.txt'' ''w'', Wrote ''out/src/a.txt'' (TextData [104, 105]),
                 Log INFO])
   \<and> raw_attempt demo_env
         (Some \<lparr>status_code = 200, content = ''hi'', resp_text = [104, 105], json_body = None\<rparr>)
         ''a.txt'' ''out/src''
       = (True, [Opened ''out/src/a.txt'' ''w'', Wrote ''out/src/a.txt'' (TextData [104, 105]),
                 Log INFO])
   \<and> write_mode (TextData [104, 105]) = classify demo_env ''hi''"
proof -
  let ?r' = "\<lparr>status_code = 200, content = ''hi'', resp_text = [104, 105], json_body = None\<rparr>"
  note th = classify_decides_write_mode
    [where env = demo_env and bs = "''hi''" and r = "ok_json (base64_file ''aGk='')"
       and kvs = "[(''type'', JStr ''file''), (''encoding'', JStr ''base64''),
                   (''content'', JStr ''aGk='')]"
       and encoded = "JStr ''aGk=''" and od = "''out/src''" and fn = "''a.txt''" and r' = ?r']
  have u: "utf8_decode demo_env ''hi'' \<noteq> None"
    by (simp add: demo_env_def remote_def demo_utf8_decode_def)
  have c1: "classify demo_env ''hi'' = Text"
    using th u by blast
  have c2: "classify demo_env [CHR 0xFF] = Binary"
    using classify_decides_write_mode [where env = demo_env and bs = "[CHR 0xFF]"]
    by (simp add: demo_env_def remote_def demo_utf8_decode_def)
  have a1: "status_code (ok_json (base64_file ''aGk='')) = 200"
    by (simp add: ok_json_def)
  have a2: "json_body (ok_json (base64_file ''aGk='')) =
      Some (JObj [(''type'', JStr ''file''), (''encoding'', JStr ''base64''),
                   (''content'', JStr ''aGk='')])"
    by (simp add: ok_json_def base64_file_def)
  have a3: "decodable_file_entry (JObj [(''type'', JStr ''file''), (''encoding'', JStr ''base64''),
                   (''content'', JStr ''aGk='')])"
    by simp
  have a4: "map_of [(''type'', JStr ''file''), (''encoding'', JStr ''base64''),
                   (''content'', JStr ''aGk='')] ''content'' = Some (JStr ''aGk='')"
    by simp
  have a5: "b64decode demo_env (JStr ''aGk='') = Some ''hi''"
    by (simp add: demo_env_def remote_def demo_b64decode_def)
  have a6: "can_open demo_env (os_path_join ''out/src'' ''a.txt'')"
    by (simp add: demo_env_def remote_def)
  have a7: "can_write demo_env (os_path_join ''out/src'' ''a.txt'')"
    by (simp add: demo_env_def remote_def)
  have "if can_write demo_env (os_path_join ''out/src'' ''a.txt'')
        then \<exists>d. api_attempt demo_env (ok_json (base64_file ''aGk='')) ''a.txt'' ''out/src''
              = (True, [Opened (os_path_join ''out/src'' ''a.txt'') (open_mode (classify demo_env ''hi'')),
                        Wrote (os_path_join ''out/src'' ''a.txt'') d, Log INFO])
            \<and> write_mode d = classify demo_env ''hi''
        else api_attempt demo_env (ok_json (base64_file ''aGk='')) ''a.txt'' ''out/src''
              = (False, [Opened (os_path_join ''out/src'' ''a.txt'') (open_mode (classify demo_env ''hi'')),
                         Log ERROR])"
    using th a1 a2 a3 a4 a5 a6 by blast
  then obtain d where d: "api_attempt demo_env (ok_json (base64_file ''aGk='')) ''a.txt'' ''out/src''
              = (True, [Opened (os_path_join ''out/src'' ''a.txt'') (open_mode (classify demo_env ''hi'')),
                        Wrote (os_path_join ''out/src'' ''a.txt'') d, Log INFO])"
    and m: "write_mode d = classify demo_env ''hi''"
    using a7 by auto
  have e: "api_attempt demo_env (ok_json (base64_file ''aGk='')) ''a.txt'' ''out/src''
       = (True, [Opened ''out/src/a.txt'' ''w'', Wrote ''out/src/a.txt'' (TextData [104, 105]),
                 Log INFO])"
    by (simp add: demo_env_def demo_defs)
  have c3: "write_mode (TextData [104, 105]) = classify demo_env ''hi''"
    using d e m by simp
  have c4: "raw_attempt demo_env (Some ?r') ''a.txt'' ''out/src''
       = (True, [Opened ''out/src/a.txt'' ''w'', Wrote ''out/src/a.txt'' (TextData [104, 105]),
                 Log INFO])"
    by (simp add: demo_env_def demo_defs)
  show ?thesis
    by (intro conjI) (rule c1 c2 e c4 c3)+
qed

text \<open>
  Claim C7: a directory whose listing fails (a status other than 200, or a transport
  failure) contributes 0 and is not listed again, and the entries beside it, before
  and after, are processed and counted: the tally of the parent is the sum over its
  entries.

  \<open>path\<close> is the parent, whose listing succeeds and holds the entries \<open>xs\<close>, then \<open>item\<close>,
  then \<open>ys\<close>; \<open>item\<close> is a directory entry that is not hidden, \<open>d\<close> is the value under its
  key \<^verbatim>\<open>path\<close>, and the listing of \<open>d\<close> fails. The walk of \<open>d\<close> returns 0 after a single
  request and no write, and \<open>item\<close> adds 0 to the tally of the parent. The walk of the
  parent is: its own listing, the entries \<open>xs\<close>, the one request for \<open>d\<close> with its log
  lines, and the entries \<open>ys\<close>, which start from the count reached after \<open>xs\<close>; it ends
  early only where an entry of \<open>xs\<close> or \<open>ys\<close> raises. When the walk of the parent
  returns a count, the count is the sum of what each entry of the listing added; a
  hidden entry adds 0.
\<close>

theorem listing_failure_is_isolated:
  assumes "requests_get env (api_url c (py_format env d)) = None
           \<or> (\<exists>r. requests_get env (api_url c (py_format env d)) = Some r \<and> status_code r \<noteq> 200)"
    and "py_getitem item ''name'' = Inr name"
    and "py_startswith name ''.'' = Inr False"
    and "py_getitem item ''type'' = Inr (JStr ''dir'')"
    and "py_getitem item ''path'' = Inr d"
    and "list_directory_contents env c (py_format env path) = ((contents, True), t0)"
    and "py_iter contents = Inr (xs @ item # ys)"
  shows "process_directory (Suc fuel) env c d out
           = Some (Inr 0, snd (list_directory_contents env c (py_format env d)))
         \<and> filter is_request (snd (list_directory_contents env c (py_format env d)))
             = [Request (api_url c (py_format env d))]
         \<and> filter is_wrote (snd (list_directory_contents env c (py_format env d))) = []
         \<and> item_tally (loop_body (Suc fuel) env c path out) item = 0
         \<and> process_directory (Suc (Suc fuel)) env c path out =
             (case for_items (loop_body (Suc fuel) env c path out) xs 0 of
                None \<Rightarrow> None
              | Some (Inl e, t1) \<Rightarrow> Some (Inl e, t0 @ t1)
              | Some (Inr m, t1) \<Rightarrow>
                  (case for_items (loop_body (Suc fuel) env c path out) ys m of
                     None \<Rightarrow> None
                   | Some (r, t2) \<Rightarrow>
                       Some (r, t0 @ t1 @ snd (list_directory_contents env c (py_format env d)) @ t2)))
         \<and> (process_directory (Suc (Suc fuel)) env c path out = Some (Inr n, t) \<longrightarrow>
              n = sum_list (map (item_tally (loop_body (Suc fuel) env c path out))
                      (xs @ item # ys)))"
proof -
  have f: "process_directory (Suc fuel) env c d out
             = Some (Inr 0, snd (list_directory_contents env c (py_format env d)))
           \<and> filter is_request (snd (list_directory_contents env c (py_format env d)))
               = [Request (api_url c (py_format env d))]
           \<and> filter is_wrote (snd (list_directory_contents env c (py_format env d))) = []"
    using assms(1) by (rule listing_failure)
  have b: "loop_body (Suc fuel) env c path out item
             = Some (Inr 0, snd (list_directory_contents env c (py_format env d)))"
    unfolding loop_body_def process_item_dir [OF assms(2-5)] using f by blast
  have z: "item_tally (loop_body (Suc fuel) env c path out) item = 0"
    using b by (simp add: item_tally_def)
  have u: "process_directory (Suc (Suc fuel)) env c path out =
             (case for_items (loop_body (Suc fuel) env c path out) (xs @ item # ys) 0 of
                None \<Rightarrow> None
              | Some (r, t') \<Rightarrow> Some (r, t0 @ t'))"
    using assms(6,7) by (rule process_directory_unfold)
  have l: "process_directory (Suc (Suc fuel)) env c path out =
             (case for_items (loop_body (Suc fuel) env c path out) xs 0 of
                None \<Rightarrow> None
              | Some (Inl e, t1) \<Rightarrow> Some (Inl e, t0 @ t1)
              | Some (Inr m, t1) \<Rightarrow>
                  (case for_items (loop_body (Suc fuel) env c path out) ys m of
                     None \<Rightarrow> None
                   | Some (r, t2) \<Rightarrow>
                       Some (r, t0 @ t1 @ snd (list_directory_contents env c (py_format env d)) @ t2)))"
    unfolding u using b
    by (simp add: for_items_append split: option.splits sum.splits prod.splits)
  have s: "process_directory (Suc (Suc fuel)) env c path out = Some (Inr n, t) \<longrightarrow>
              n = sum_list (map (item_tally (loop_body (Suc fuel) env c path out))
                      (xs @ item # ys))"
  proof
    assume "process_directory (Suc (Suc fuel)) env c path out = Some (Inr n, t)"
    with u obtain t' where
      "for_items (loop_body (Suc fuel) env c path out) (xs @ item # ys) 0 = Some (Inr n, t')"
      by (auto split: option.splits)
    from for_items_sum [OF this]
    show "n = sum_list (map (item_tally (loop_body (Suc fuel) env c path out)) (xs @ item # ys))"
      by simp
  qed
  show ?thesis
    using f z l s by blast
qed

theorem listing_failure_is_isolated_witness:
  "requests_get forbidden_env (api_url demo_c ''src/secret'') = Some (status_only 403)
   \<and> status_code (status_only 403) \<noteq> 200
   \<and> process_directory (Suc 0) forbidden_env demo_c (JStr ''src/secret'') ''out''
       = Some (Inr 0,
           [Request ''https://api.github.com/repos/acme/widgets/contents/src/secret?ref=abcdef1'',
            Log WARNING, Log WARNING])
   \<and> item_tally (loop_body (Suc 0) forbidden_env demo_c (JStr ''src'') ''out'')
         (entry ''secret'' ''src/secret'' ''dir'') = 0
   \<and> process_directory (Suc (Suc 0)) forbidden_env demo_c (JStr ''src'') ''out''
       = Some (Inr 1,
           [Request ''https://api.github.com/repos/acme/widgets/contents/src?ref=abcdef1'',
            Makedirs ''out/src'' True,
            Log INFO,
            Request ''https://api.github.com/repos/acme/widgets/contents/src/a.txt?ref=abcdef1'',
            Opened ''out/src/a.txt'' ''w'',
            Wrote ''out/src/a.txt'' (TextData [104, 105]),
            Log INFO,
            Sleep (1/10) (1/2),
            Request ''https://api.github.com/repos/acme/widgets/contents/src/secret?ref=abcdef1'',
            Log WARNING, Log WARNING])
   \<and> (1::nat) = sum_list (map (item_tally (loop_body (Suc 0) forbidden_env demo_c (JStr ''src'') ''out''))
         ([entry ''a.txt'' ''src/a.txt'' ''file''] @ entry ''secret'' ''src/secret'' ''dir''
            # [entry ''link'' ''src/link'' ''symlink'']))"
proof -
  let ?listing = "JArr [entry ''a.txt'' ''src/a.txt'' ''file'',
                        entry ''secret'' ''src/secret'' ''dir'',
                        entry ''link'' ''src/link'' ''symlink'']"
  let ?t0 = "[Request ''https://api.github.com/repos/acme/widgets/contents/src?ref=abcdef1'']"
  let ?full = "[Request ''https://api.github.com/repos/acme/widgets/contents/src?ref=abcdef1'',
            Makedirs ''out/src'' True,
            Log INFO,
            Request ''https://api.github.com/repos/acme/widgets/contents/src/a.txt?ref=abcdef1'',
            Opened ''out/src/a.txt'' ''w'',
            Wrote ''out/src/a.txt'' (TextData [104, 105]),
            Log INFO,
            Sleep (1/10) (1/2),
            Request ''https://api.github.com/repos/acme/widgets/contents/src/secret?ref=abcdef1'',
            Log WARNING, Log WARNING]"
  have g: "requests_get forbidden_env (api_url demo_c ''src/secret'') = Some (status_only 403)"
    by (simp add: forbidden_env_def remote_def demo_c_def api_url_def)
  have n: "status_code (status_only 403) \<noteq> 200"
    by (simp add: status_only_def)
  have h1: "requests_get forbidden_env (api_url demo_c (py_format forbidden_env (JStr ''src/secret''))) = None
           \<or> (\<exists>r. requests_get forbidden_env (api_url demo_c (py_format forbidden_env (JStr ''src/secret'')))
                      = Some r
                    \<and> status_code r \<noteq> 200)"
    using g n by simp
  have h2: "py_getitem (entry ''secret'' ''src/secret'' ''dir'') ''name'' = Inr (JStr ''secret'')"
    by (simp add: entry_def)
  have h3: "py_startswith (JStr ''secret'') ''.'' = Inr False"
    by simp
  have h4: "py_getitem (entry ''secret'' ''src/secret'' ''dir'') ''type'' = Inr (JStr ''dir'')"
    by (simp add: entry_def)
  have h5: "py_getitem (entry ''secret'' ''src/secret'' ''dir'') ''path'' = Inr (JStr ''src/secret'')"
    by (simp add: entry_def)
  have h6: "list_directory_contents forbidden_env demo_c (py_format forbidden_env (JStr ''src''))
              = ((?listing, True), ?t0)"
    by (simp add: forbidden_env_def demo_defs)
  have h7: "py_iter ?listing = Inr ([entry ''a.txt'' ''src/a.txt'' ''file'']
              @ entry ''secret'' ''src/secret'' ''dir'' # [entry ''link'' ''src/link'' ''symlink''])"
    by simp
  note th = listing_failure_is_isolated [OF h1 h2 h3 h4 h5 h6 h7, of 0 "''out''" 1 ?full]
  have l: "snd (list_directory_contents forbidden_env demo_c (py_format forbidden_env (JStr ''src/secret'')))
             = [Request ''https://api.github.com/repos/acme/widgets/contents/src/secret?ref=abcdef1'',
                Log WARNING, Log WARNING]"
    by (simp add: forbidden_env_def demo_defs)
  have x: "for_items (loop_body (Suc 0) forbidden_env demo_c (JStr ''src'') ''out'')
             [entry ''a.txt'' ''src/a.txt'' ''file''] 0
           = Some (Inr 1,
               [Makedirs ''out/src'' True,
                Log INFO,
                Request ''https://api.github.com/repos/acme/widgets/contents/src/a.txt?ref=abcdef1'',
                Opened ''out/src/a.txt'' ''w'',
                Wrote ''out/src/a.txt'' (TextData [104, 105]),
                Log INFO,
                Sleep (1/10) (1/2)])"
    by (simp add: loop_body_def forbidden_env_def demo_defs)
  have y: "for_items (loop_body (Suc 0) forbidden_env demo_c (JStr ''src'') ''out'')
             [entry ''link'' ''src/link'' ''symlink''] 1 = Some (Inr 1, [])"
    by (simp add: loop_body_def forbidden_env_def demo_defs)
  have c3: "process_directory (Suc 0) forbidden_env demo_c (JStr ''src/secret'') ''out''
       = Some (Inr 0,
           [Request ''https://api.github.com/repos/acme/widgets/contents/src/secret?ref=abcdef1'',
            Log WARNING, Log WARNING])"
    using th l by simp
  have c4: "item_tally (loop_body (Suc 0) forbidden_env demo_c (JStr ''src'') ''out'')
         (entry ''secret'' ''src/secret'' ''dir'') = 0"
    using th by blast
  have "process_directory (Suc (Suc 0)) forbidden_env demo_c (JStr ''src'') ''out''
       = (case for_items (loop_body (Suc 0) forbidden_env demo_c (JStr ''src'') ''out'')
                 [entry ''a.txt'' ''src/a.txt'' ''file''] 0 of
                None \<Rightarrow> None
              | Some (Inl e, t1) \<Rightarrow> Some (Inl e, ?t0 @ t1)
              | Some (Inr m, t1) \<Rightarrow>
                  (case for_items (loop_body (Suc 0) forbidden_env demo_c (JStr ''src'') ''out'')
                          [entry ''link'' ''src/link'' ''symlink''] m of
                     None \<Rightarrow> None
                   | Some (r, t2) \<Rightarrow>
                       Some (r, ?t0 @ t1
                                  @ snd (list_directory_contents forbidden_env demo_c
                                           (py_format forbidden_env (JStr ''src/secret'')))
                                  @ t2)))"
    using th by blast
  then have c5: "process_directory (Suc (Suc 0)) forbidden_env demo_c (JStr ''src'') ''out''
       = Some (Inr 1, ?full)"
    by (simp only: x y l option.case sum.case prod.case append.simps)
  have c6: "(1::nat) = sum_list (map (item_tally (loop_body (Suc 0) forbidden_env demo_c (JStr ''src'') ''out''))
         ([entry ''a.txt'' ''src/a.txt'' ''file''] @ entry ''secret'' ''src/secret'' ''dir''
            # [entry ''link'' ''src/link'' ''symlink'']))"
    using th c5 by blast
  show ?thesis
    by (intro conjI) (rule g n c3 c4 c5 c6)+
qed

text \<open>
  Claim C8: a second walk with the same coordinate, output root and remote answers
  leaves the files as the first walk left them; a write replaces what was at the path.

  The walk takes no file system as an argument: with the same answers of the remote
  and of the operating system it performs the same effects \<open>t\<close> again. The effects of a
  walk can be carried out on every file system \<open>fs\<close>; carried out again on the
  result \<open>fs1\<close>, they give \<open>fs1\<close> again. In \<open>fs1\<close> a path the walk has opened holds what
  the walk wrote to it after opening it last, and nothing of what it held before
  (nothing at all when the write failed after the opening); a path the walk has not
  opened holds what it held. A map has one content per path, so there is neither a
  second copy nor a merge. A download that succeeds performs one write, at the output
  directory joined with the name, and leaves at that path the one piece it wrote,
  whatever \<open>cur\<close> was there.

  This is a property of the effects the walk performs, not of effects in general: a
  file opened in the mode \<^verbatim>\<open>'a'\<close> would keep its content and hold it twice after the
  second walk, and a directory made without \<^verbatim>\<open>exist_ok\<close> would stop the second walk.
\<close>

theorem second_walk_changes_nothing:
  "process_directory fuel env c path out = Some (r, t) \<Longrightarrow>
     (\<exists>fs1. run_events t fs = Some fs1
         \<and> run_events t fs1 = Some fs1
         \<and> (\<forall>p. files fs1 p
                = (case content_after p None t of Some pieces \<Rightarrow> Some pieces | None \<Rightarrow> files fs p)))
     \<and> (download_file env c fp fn od = (True, t1) \<longrightarrow>
          (\<exists>d. written_paths t1 = [os_path_join od fn]
              \<and> Wrote (os_path_join od fn) d \<in> set t1
              \<and> content_after (os_path_join od fn) cur t1 = Some [d]))"
proof
  assume a: "process_directory fuel env c path out = Some (r, t)"
  then have o: "overwriting None t" by (rule process_directory_overwriting)
  from run_events_overwriting [OF o, of fs] obtain fs1 where
    r1: "run_events t fs = Some fs1" and
    f1: "\<forall>p. files fs1 p = content_after p (files fs p) t" by auto
  have r2: "run_events t fs1 = Some fs1"
    using o r1 by (rule run_events_twice)
  have "\<forall>p. files fs1 p
          = (case content_after p None t of Some pieces \<Rightarrow> Some pieces | None \<Rightarrow> files fs p)"
  proof
    fix p
    have "content_after p (files fs p) t
            = (case content_after p None t of Some cs \<Rightarrow> Some cs | None \<Rightarrow> files fs p)"
      by (rule content_after_overwriting [OF o]) simp
    with f1 show "files fs1 p
          = (case content_after p None t of Some pieces \<Rightarrow> Some pieces | None \<Rightarrow> files fs p)"
      by simp
  qed
  with r1 r2 show "\<exists>fs1. run_events t fs = Some fs1
         \<and> run_events t fs1 = Some fs1
         \<and> (\<forall>p. files fs1 p
                = (case content_after p None t of Some pieces \<Rightarrow> Some pieces | None \<Rightarrow> files fs p))"
    by blast
  show "download_file env c fp fn od = (True, t1) \<longrightarrow>
          (\<exists>d. written_paths t1 = [os_path_join od fn]
              \<and> Wrote (os_path_join od fn) d \<in> set t1
              \<and> content_after (os_path_join od fn) cur t1 = Some [d])"
    using download_file_content by blast
qed

theorem second_walk_changes_nothing_witness:
  "process_directory 3 demo_env demo_c (JStr ''src'') ''out'' = Some (Inr 2, demo_trace)
   \<and> files old_fs ''out/src/a.txt'' = Some [BinaryData ''old'']
   \<and> (\<exists>fs1. run_events demo_trace old_fs = Some fs1
          \<and> run_events demo_trace fs1 = Some fs1
          \<and> files fs1 ''out/src/a.txt'' = Some [TextData [104, 105]]
          \<and> files fs1 ''out/src/sub/b.bin'' = Some [BinaryData [CHR 0xFF]])
   \<and> process_directory 1 full_disk_env demo_c (JStr ''src'') ''out'' = Some (Inr 0, full_disk_trace)
   \<and> (\<exists>fs1. run_events full_disk_trace old_fs = Some fs1
          \<and> run_events full_disk_trace fs1 = Some fs1
          \<and> files fs1 ''out/src/a.txt'' = Some [])
   \<and> download_file demo_env demo_c ''src/a.txt'' ''a.txt'' ''out/src'' =
       (True,
        [Log INFO,
         Request ''https://api.github.com/repos/acme/widgets/contents/src/a.txt?ref=abcdef1'',
         Opened ''out/src/a.txt'' ''w'',
         Wrote ''out/src/a.txt'' (TextData [104, 105]),
         Log INFO])
   \<and> content_after ''out/src/a.txt'' (Some [BinaryData ''old''])
        [Log INFO,
         Request ''https://api.github.com/repos/acme/widgets/contents/src/a.txt?ref=abcdef1'',
         Opened ''out/src/a.txt'' ''w'',
         Wrote ''out/src/a.txt'' (TextData [104, 105]),
         Log INFO]
       = Some [TextData [104, 105]]"
proof -
  let ?t1 = "[Log INFO,
         Request ''https://api.github.com/repos/acme/widgets/contents/src/a.txt?ref=abcdef1'',
         Opened ''out/src/a.txt'' ''w'',
         Wrote ''out/src/a.txt'' (TextData [104, 105]),
         Log INFO]"
  have o: "files old_fs ''out/src/a.txt'' = Some [BinaryData ''old'']"
    by (simp add: old_fs_def)
  have j: "os_path_join ''out/src'' ''a.txt'' = ''out/src/a.txt''"
    by (simp add: os_path_join_def)
  have dl: "download_file demo_env demo_c ''src/a.txt'' ''a.txt'' ''out/src'' = (True, ?t1)"
    by (simp add: demo_env_def demo_defs)
  from second_walk_changes_nothing [OF demo_run, where fp = "''src/a.txt''" and fn = "''a.txt''"
      and od = "''out/src''" and ?t1.0 = ?t1 and cur = "Some [BinaryData ''old'']"] dl
  obtain d where
    w: "Wrote (os_path_join ''out/src'' ''a.txt'') d \<in> set ?t1" and
    k: "content_after (os_path_join ''out/src'' ''a.txt'') (Some [BinaryData ''old'']) ?t1 = Some [d]"
    by blast
  from w have "d = TextData [104, 105]"
    by (simp add: j)
  with k have c3: "content_after ''out/src/a.txt'' (Some [BinaryData ''old'']) ?t1
                     = Some [TextData [104, 105]]"
    by (simp only: j)
  have l1: "content_after ''out/src/a.txt'' None demo_trace = Some [TextData [104, 105]]"
    by (simp add: demo_trace_def)
  have l2: "content_after ''out/src/sub/b.bin'' None demo_trace = Some [BinaryData [CHR 0xFF]]"
    by (simp add: demo_trace_def)
  have l3: "content_after ''out/src/a.txt'' None full_disk_trace = Some []"
    by (simp add: full_disk_trace_def)
  from second_walk_changes_nothing [OF demo_run, of old_fs] obtain fs1 where
    a: "run_events demo_trace old_fs = Some fs1" "run_events demo_trace fs1 = Some fs1"
    and f: "\<forall>p. files fs1 p
                = (case content_after p None demo_trace of
                     Some pieces \<Rightarrow> Some pieces | None \<Rightarrow> files old_fs p)"
    by blast
  have c1: "\<exists>fs1. run_events demo_trace old_fs = Some fs1
          \<and> run_events demo_trace fs1 = Some fs1
          \<and> files fs1 ''out/src/a.txt'' = Some [TextData [104, 105]]
          \<and> files fs1 ''out/src/sub/b.bin'' = Some [BinaryData [CHR 0xFF]]"
    using a f l1 l2 by (intro exI [of _ fs1]) simp
  from second_walk_changes_nothing [OF full_disk_run, of old_fs] obtain fs2 where
    b: "run_events full_disk_trace old_fs = Some fs2" "run_events full_disk_trace fs2 = Some fs2"
    and g: "\<forall>p. files fs2 p
                = (case content_after p None full_disk_trace of
                     Some pieces \<Rightarrow> Some pieces | None \<Rightarrow> files old_fs p)"
    by blast
  have c2: "\<exists>fs1. run_events full_disk_trace old_fs = Some fs1
          \<and> run_events full_disk_trace fs1 = Some fs1
          \<and> files fs1 ''out/src/a.txt'' = Some []"
    using b g l3 by (intro exI [of _ fs2]) simp
  show ?thesis
    by (intro conjI) (rule demo_run o c1 full_disk_run c2 dl c3)+
qed

text \<open>
  Claim C9: the pacing delay, drawn from the interval 0.1 to 0.5, is applied once after
  each downloaded file and never after a hidden entry, a failed download or a listing.

  \<open>pacing_ok\<close> reads the effects of a run from left to right: a write must be followed
  at once by the log line of the successful download and by
  \<^verbatim>\<open>time.sleep(random.uniform(0.1, 0.5))\<close>, and a sleep stands nowhere else. It holds of
  every run, also of one that an exception ends; when a count is returned, it is the
  number of sleeps and the number of writes. The draw itself is the library's: the
  effect records the two bounds handed to \<^verbatim>\<open>random.uniform\<close>.
\<close>

theorem pacing_once_per_download:
  "process_directory fuel env c path out = Some (r, t) \<Longrightarrow>
     pacing_ok t
     \<and> (case r of
          Inl e \<Rightarrow> True
        | Inr n \<Rightarrow> length (filter is_sleep t) = n \<and> length (filter is_wrote t) = n)"
proof (intro conjI)
  assume a: "process_directory fuel env c path out = Some (r, t)"
  then show "pacing_ok t" by (rule process_directory_pacing)
  show "case r of
          Inl e \<Rightarrow> True
        | Inr n \<Rightarrow> length (filter is_sleep t) = n \<and> length (filter is_wrote t) = n"
  proof (cases r)
    case (Inl e)
    then show ?thesis by simp
  next
    case (Inr n)
    with a have b: "process_directory fuel env c path out = Some (Inr n, t)" by simp
    show ?thesis
      using Inr process_directory_sleeps [OF b] process_directory_count [OF b] by simp
  qed
qed

theorem pacing_once_per_download_witness:
  "process_directory 3 demo_env demo_c (JStr ''src'') ''out'' = Some (Inr 2, demo_trace)
   \<and> pacing_ok demo_trace
   \<and> length (filter is_sleep demo_trace) = 2
   \<and> filter is_sleep demo_trace = [Sleep (1/10) (1/2), Sleep (1/10) (1/2)]"
proof -
  have "pacing_ok demo_trace \<and> length (filter is_sleep demo_trace) = 2
          \<and> length (filter is_wrote demo_trace) = 2"
    using pacing_once_per_download [OF demo_run] by simp
  moreover have "filter is_sleep demo_trace = [Sleep (1/10) (1/2), Sleep (1/10) (1/2)]"
    by (simp add: demo_trace_def)
  ultimately show ?thesis using demo_run by blast
qed

text \<open>
  Claim C10: a listed entry whose type is neither \<^verbatim>\<open>file\<close> nor \<^verbatim>\<open>dir\<close> (a symlink, a
  submodule) is passed over: it adds 0, has no effect at all (no request, no directory,
  no write, no recursion), and the loop runs as if the entry were not in the listing.
\<close>

theorem other_entry_types_ignored:
  assumes "py_getitem item ''name'' = Inr name"
    and "py_startswith name ''.'' = Inr False"
    and "py_getitem item ''type'' = Inr ty"
    and "ty \<noteq> JStr ''file''"
    and "ty \<noteq> JStr ''dir''"
  shows "process_item walk env c path out item = Some (Inr 0, [])
         \<and> for_items (process_item walk env c path out) (xs @ item # ys) k
             = for_items (process_item walk env c path out) (xs @ ys) k"
proof
  show a: "process_item walk env c path out item = Some (Inr 0, [])"
    using assms by (rule process_item_other)
  show "for_items (process_item walk env c path out) (xs @ item # ys) k
             = for_items (process_item walk env c path out) (xs @ ys) k"
    using a by (rule for_items_skip)
qed

theorem other_entry_types_ignored_witness:
  "py_getitem (entry ''link'' ''src/link'' ''symlink'') ''name'' = Inr (JStr ''link'')
   \<and> py_startswith (JStr ''link'') ''.'' = Inr False
   \<and> py_getitem (entry ''link'' ''src/link'' ''symlink'') ''type'' = Inr (JStr ''symlink'')
   \<and> process_item (\<lambda>p. None) forbidden_env demo_c (JStr ''src'') ''out''
        (entry ''link'' ''src/link'' ''symlink'') = Some (Inr 0, [])
   \<and> for_items (process_item (\<lambda>p. None) forbidden_env demo_c (JStr ''src'') ''out'')
        ([] @ entry ''link'' ''src/link'' ''symlink'' # []) 5
      = for_items (process_item (\<lambda>p. None) forbidden_env demo_c (JStr ''src'') ''out'') ([] @ []) 5"
proof -
  have a: "py_getitem (entry ''link'' ''src/link'' ''symlink'') ''name'' = Inr (JStr ''link'')"
    by (simp add: entry_def)
  have b: "py_startswith (JStr ''link'') ''.'' = Inr False"
    by simp
  have c: "py_getitem (entry ''link'' ''src/link'' ''symlink'') ''type'' = Inr (JStr ''symlink'')"
    by (simp add: entry_def)
  have d: "JStr ''symlink'' \<noteq> JStr ''file''" by simp
  have e: "JStr ''symlink'' \<noteq> JStr ''dir''" by simp
  note th = other_entry_types_ignored [OF a b c d e, of "\<lambda>p. None" forbidden_env demo_c
      "JStr ''src''" "''out''" "[]" "[]" 5]
  show ?thesis
    using a b c th by blast
qed

end
